theory Spec2Isabelle
  imports Main "HOL-Library.Product_Lexorder"
begin

section \<open>JavaScript values\<close>

text \<open>
  A field of the JSON request body is any JSON value. Numbers are modelled as integers.
  \<open>JMember name\<close> is the member of \<^verbatim>\<open>Object.prototype\<close> called \<open>name\<close> (a function, or the
  prototype object itself for \<^verbatim>\<open>__proto__\<close>): what a property lookup on an object literal
  gives for a key that the literal does not have but its prototype has.
\<close>

datatype jsval = JUndefined | JNull | JBool bool | JNum int | JStr string | JMember string

fun truthy :: "jsval \<Rightarrow> bool" where
  "truthy JUndefined = False"
| "truthy JNull = False"
| "truthy (JBool b) = b"
| "truthy (JNum n) = (n \<noteq> 0)"
| "truthy (JStr s) = (s \<noteq> [])"
| "truthy (JMember name) = True"

fun strict_eq :: "jsval \<Rightarrow> jsval \<Rightarrow> bool" where
  \<comment> \<open>\<^verbatim>\<open>===\<close>: values of different types are never equal\<close>
  "strict_eq JUndefined JUndefined = True"
| "strict_eq JNull JNull = True"
| "strict_eq (JBool a) (JBool b) = (a = b)"
| "strict_eq (JNum a) (JNum b) = (a = b)"
| "strict_eq (JStr a) (JStr b) = (a = b)"
| "strict_eq (JMember a) (JMember b) = (a = b)"
| "strict_eq _ _ = False"

definition object_prototype_members :: "string list" where
  \<comment> \<open>the property names of \<^verbatim>\<open>Object.prototype\<close> in Node\<close>
  "object_prototype_members =
     [''constructor'', ''toString'', ''toLocaleString'', ''valueOf'', ''hasOwnProperty'',
      ''isPrototypeOf'', ''propertyIsEnumerable'', ''__proto__'', ''__defineGetter__'',
      ''__defineSetter__'', ''__lookupGetter__'', ''__lookupSetter__'']"

section \<open>Calendar dates, the server's time zone and JavaScript Date objects\<close>

text \<open>
  The shift-class route handles two kinds of dates. A stored or requested date is a
  string \<^verbatim>\<open>YYYY-MM-DD\<close>; it is represented by the number of days from 1970-01-01 to
  that date, so that two date strings are equal exactly when their day numbers are. A
  value that is not such a string is outside the model.

  A \<^verbatim>\<open>Date\<close> object is represented by the local wall-clock time it shows on the server,
  in milliseconds from 1970-01-01 00:00 local time: the route builds its dates from
  local fields (\<^verbatim>\<open>new Date(s + 'T12:00:00')\<close>, \<^verbatim>\<open>setHours\<close>, \<^verbatim>\<open>setDate\<close>) and reads the
  local weekday (\<^verbatim>\<open>getDay\<close>). The server's time zone \<open>z\<close> gives, for a local wall-clock
  time, the offset of local time from UTC in force then, in milliseconds, positive
  east of UTC; a zone without daylight saving time is a constant function. The time
  value of a \<^verbatim>\<open>Date\<close> (\<^verbatim>\<open>getTime\<close>, and what \<^verbatim>\<open><=\<close> and \<^verbatim>\<open>-\<close> compare) is its wall-clock time
  less the offset, and \<^verbatim>\<open>toISOString\<close> shows the UTC fields of that time value. The
  wall-clock times the route builds are noon of a date and midnight of the current
  day; they are taken to exist in the zone.
\<close>

type_synonym isodate = int
type_synonym jsdate = int
type_synonym zone = "int \<Rightarrow> int"

definition ms_per_day :: int where
  "ms_per_day = 1000 * 60 * 60 * 24"

definition date_at_noon :: "isodate \<Rightarrow> jsdate" where
  \<comment> \<open>\<^verbatim>\<open>new Date(s + 'T12:00:00')\<close>: local noon of the date\<close>
  "date_at_noon d = d * ms_per_day + 12 * 60 * 60 * 1000"

definition getTime :: "zone \<Rightarrow> jsdate \<Rightarrow> int" where
  \<comment> \<open>the time value, milliseconds since the epoch\<close>
  "getTime z t = t - z t"

definition date_only :: "isodate \<Rightarrow> int" where
  \<comment> \<open>\<^verbatim>\<open>new Date(s).getTime()\<close> for a date-only string: midnight UTC\<close>
  "date_only d = d * ms_per_day"

definition getDay :: "jsdate \<Rightarrow> int" where
  \<comment> \<open>the local weekday, 0 = Sunday .. 6 = Saturday; 1970-01-01 was a Thursday\<close>
  "getDay t = (t div ms_per_day + 4) mod 7"

definition setDate_next :: "jsdate \<Rightarrow> jsdate" where
  \<comment> \<open>\<^verbatim>\<open>result.setDate(result.getDate() + 1)\<close>: the next local day, same wall-clock time\<close>
  "setDate_next t = t + ms_per_day"

definition setHours_zero :: "jsdate \<Rightarrow> jsdate" where
  \<comment> \<open>\<^verbatim>\<open>today.setHours(0, 0, 0, 0)\<close>: local midnight\<close>
  "setHours_zero t = (t div ms_per_day) * ms_per_day"

definition toISODate :: "zone \<Rightarrow> jsdate \<Rightarrow> isodate" where
  \<comment> \<open>\<^verbatim>\<open>d.toISOString().split('T')[0]\<close>: the UTC date of the time value\<close>
  "toISODate z t = getTime z t div ms_per_day"

definition day_names :: "string list" where
  "day_names = [''Sunday'', ''Monday'', ''Tuesday'', ''Wednesday'', ''Thursday'',
                ''Friday'', ''Saturday'']"

definition getDayName :: "jsdate \<Rightarrow> string" where
  \<comment> \<open>\<^verbatim>\<open>days[date.getDay()]\<close>; the index is always within 0..6\<close>
  "getDayName t = day_names ! nat (getDay t)"

definition days :: "(string \<times> int) list" where
  \<comment> \<open>the object literal of \<^verbatim>\<open>getDayIndex\<close>\<close>
  "days = [(''Sunday'', 0), (''Monday'', 1), (''Tuesday'', 2), (''Wednesday'', 3),
           (''Thursday'', 4), (''Friday'', 5), (''Saturday'', 6)]"

definition getDayIndex :: "string \<Rightarrow> jsval" where
  \<comment> \<open>\<^verbatim>\<open>days[dayName] ?? -1\<close>: an own key gives its number, a key inherited from
      \<^verbatim>\<open>Object.prototype\<close> gives that member, which is not nullish, any other key gives -1\<close>
  "getDayIndex dayName =
     (case map_of days dayName of
        Some i \<Rightarrow> JNum i
      | None \<Rightarrow> if dayName \<in> set object_prototype_members then JMember dayName
                else JNum (-1))"

subsection \<open>The date projector\<close>

text \<open>
  \<^verbatim>\<open>findNextDay\<close> copies its argument, moves the copy one day on and then runs
  \<^verbatim>\<open>for (let i = 0; i < 7; i++)\<close>: it returns the copy when its weekday is a target,
  and moves it one more day on otherwise. After the loop it returns the copy as it is.
  The targets are whatever values the caller's array holds; \<^verbatim>\<open>includes\<close> finds the
  weekday only among the numbers.
\<close>

function findNextDay_loop :: "nat \<Rightarrow> jsval list \<Rightarrow> jsdate \<Rightarrow> jsdate" where
  "findNextDay_loop i targetDays result =
     (if i < 7 then
        (if JNum (getDay result) \<in> set targetDays then result
         else findNextDay_loop (i + 1) targetDays (setDate_next result))
      else result)"
  by pat_completeness auto
termination
  by (relation "measure (\<lambda>(i, targetDays, result). 7 - i)") auto

declare findNextDay_loop.simps [simp del]

definition findNextDay :: "jsdate \<Rightarrow> jsval list \<Rightarrow> jsdate" where
  "findNextDay fromDate targetDays = findNextDay_loop 0 targetDays (setDate_next fromDate)"

section \<open>Rows and the storage\<close>

text \<open>
  A row of a cohort schedule table, with the columns the route reads or writes. The
  \<^verbatim>\<open>day\<close> column may be null (\<open>None\<close>); the route drops null and empty day values
  itself. An id is a \<^verbatim>\<open>BIGINT\<close>; the ids are taken to be integers that a JavaScript
  number holds exactly, as every integer up to \<open>2^53\<close> in magnitude is.
\<close>

record session =
  session_id :: int
  week_number :: int
  session_number :: int
  date :: isodate
  day :: "string option"
  session_type :: string
  subject_name :: string

text \<open>
  What a \<^verbatim>\<open>select\<close> gives back: an error, null data, or rows (possibly none). Which
  of these happens is decided by the storage service; the rows themselves are the
  table in the requested order, rows with equal keys in stored order. The environment
  of a request is the server's time zone, the wall-clock time the server shows when
  the request arrives, and the outcomes of the storage calls.
\<close>

datatype fetch_outcome = FetchError | FetchNull | FetchRows

record env =
  zone :: zone
  now :: jsdate
  fetch_outcome :: fetch_outcome
  update_error :: "int \<Rightarrow> string option"
  refetch_outcome :: fetch_outcome
  renumber_error :: "int \<Rightarrow> bool"

definition select_by_week :: "session list \<Rightarrow> session list" where
  \<comment> \<open>\<^verbatim>\<open>.order('week_number').order('session_number')\<close>\<close>
  "select_by_week table = sort_key (\<lambda>s. (week_number s, session_number s)) table"

definition select_by_date :: "session list \<Rightarrow> session list" where
  \<comment> \<open>\<^verbatim>\<open>.order('date', { ascending: true })\<close>\<close>
  "select_by_date table = sort_key date table"

definition update_date_day :: "int \<Rightarrow> isodate \<Rightarrow> string \<Rightarrow> session list \<Rightarrow> session list" where
  \<comment> \<open>\<^verbatim>\<open>.update({ date, day }).eq('id', id)\<close>\<close>
  "update_date_day i d dy table =
     map (\<lambda>s. if session_id s = i then s\<lparr>date := d, day := Some dy\<rparr> else s) table"

definition update_week_session :: "int \<Rightarrow> int \<Rightarrow> int \<Rightarrow> session list \<Rightarrow> session list" where
  \<comment> \<open>\<^verbatim>\<open>.update({ week_number, session_number }).eq('id', id)\<close>\<close>
  "update_week_session i w n table =
     map (\<lambda>s. if session_id s = i then s\<lparr>week_number := w, session_number := n\<rparr> else s) table"

fun findIndex :: "('a \<Rightarrow> bool) \<Rightarrow> 'a list \<Rightarrow> nat option" where
  \<comment> \<open>\<open>None\<close> stands for the result -1\<close>
  "findIndex P [] = None"
| "findIndex P (x # xs) =
     (if P x then Some 0 else map_option Suc (findIndex P xs))"

section \<open>Day-pattern detection\<close>

definition js_Set :: "'a list \<Rightarrow> 'a list" where
  \<comment> \<open>\<^verbatim>\<open>[...new Set(xs)]\<close>: each value once, in the order of first insertion\<close>
  "js_Set xs = foldl (\<lambda>acc x. if x \<in> set acc then acc else acc @ [x]) [] xs"

fun filter_Boolean :: "string option list \<Rightarrow> string list" where
  \<comment> \<open>\<^verbatim>\<open>.filter(Boolean)\<close>: null and the empty string are dropped\<close>
  "filter_Boolean [] = []"
| "filter_Boolean (None # ds) = filter_Boolean ds"
| "filter_Boolean (Some d # ds) = (if d = [] then filter_Boolean ds else d # filter_Boolean ds)"

definition uniqueDays :: "session list \<Rightarrow> string list" where
  "uniqueDays allSessions =
     (let regularSessions = filter (\<lambda>s. session_type s \<noteq> ''contest'') allSessions
      in filter_Boolean (js_Set (map day regularSessions)))"

definition dayPattern :: "session list \<Rightarrow> jsval list" where
  \<comment> \<open>\<^verbatim>\<open>.filter(i => i !== -1)\<close>, then \<^verbatim>\<open>push(1, 3, 5)\<close> when nothing is left\<close>
  "dayPattern allSessions =
     (let detected = filter (\<lambda>i. \<not> strict_eq i (JNum (-1)))
                       (map getDayIndex (uniqueDays allSessions))
      in if length detected = 0 then detected @ [JNum 1, JNum 3, JNum 5] else detected)"

section \<open>The cascade\<close>

text \<open>
  The loop over the sessions after the shifted one is the same in both handlers; they
  differ in the entry pushed for each session, which is the parameter \<open>entry\<close> here.
  \<open>currentDate\<close> is the loop's variable of that name.
\<close>

fun cascade :: "(session \<Rightarrow> jsdate \<Rightarrow> 'a) \<Rightarrow> jsval list \<Rightarrow> jsdate \<Rightarrow> session list \<Rightarrow> 'a list" where
  "cascade entry pattern currentDate [] = []"
| "cascade entry pattern currentDate (s # rest) =
     (let currentDate' =
            (if session_type s = ''contest''
             then findNextDay currentDate [JNum 1, JNum 2, JNum 3, JNum 4, JNum 5]
             else findNextDay currentDate pattern)
      in entry s currentDate' # cascade entry pattern currentDate' rest)"

record update =
  u_id :: int
  u_date :: isodate
  u_day :: string

definition update_entry :: "zone \<Rightarrow> session \<Rightarrow> jsdate \<Rightarrow> update" where
  "update_entry z s currentDate =
     \<lparr>u_id = session_id s, u_date = toISODate z currentDate, u_day = getDayName currentDate\<rparr>"

definition build_updates :: "zone \<Rightarrow> session list \<Rightarrow> nat \<Rightarrow> isodate \<Rightarrow> update list" where
  \<comment> \<open>steps 3 to 6 of the apply handler\<close>
  "build_updates z allSessions sessionIndex newDate =
     (let shiftedDate = date_at_noon newDate
      in \<lparr>u_id = session_id (allSessions ! sessionIndex), u_date = newDate,
          u_day = getDayName shiftedDate\<rparr>
         # cascade (update_entry z) (dayPattern allSessions) shiftedDate
             (drop (sessionIndex + 1) allSessions))"

section \<open>Week and session renumbering\<close>

text \<open>
  The three variables of the renumbering loop, and one turn of its body for a session
  dated \<open>d\<close>: the state after \<^verbatim>\<open>sessionInWeek++\<close>. Both dates are local noons; their
  time values are subtracted. \<^verbatim>\<open>Math.floor\<close> of the quotient is integer division, which
  rounds down.
\<close>

record counters =
  currentWeekNumber :: int
  sessionInWeek :: int
  weekStartDate :: jsdate

definition renumber_step :: "zone \<Rightarrow> counters \<Rightarrow> isodate \<Rightarrow> counters" where
  "renumber_step z c d =
     (let sessionDate = date_at_noon d;
          daysSinceWeekStart =
            (getTime z sessionDate - getTime z (weekStartDate c)) div ms_per_day;
          c' = (if daysSinceWeekStart \<ge> 7
                then \<lparr>currentWeekNumber = currentWeekNumber c + 1, sessionInWeek = 0,
                      weekStartDate = sessionDate\<rparr>
                else c)
      in c'\<lparr>sessionInWeek := sessionInWeek c' + 1\<rparr>)"

definition initial_counters :: "isodate \<Rightarrow> counters" where
  "initial_counters firstDate =
     \<lparr>currentWeekNumber = 1, sessionInWeek = 0, weekStartDate = date_at_noon firstDate\<rparr>"

text \<open>The pairs the loop assigns, by position, to sessions with the dates \<open>ds\<close>.\<close>

fun assign_from :: "zone \<Rightarrow> counters \<Rightarrow> isodate list \<Rightarrow> (int \<times> int) list" where
  "assign_from z c [] = []"
| "assign_from z c (d # ds) =
     (let c' = renumber_step z c d
      in (currentWeekNumber c', sessionInWeek c') # assign_from z c' ds)"

definition assign :: "zone \<Rightarrow> isodate list \<Rightarrow> (int \<times> int) list" where
  "assign z ds =
     (case ds of [] \<Rightarrow> [] | firstDate # _ \<Rightarrow> assign_from z (initial_counters firstDate) ds)"

text \<open>
  The loop of the apply handler: the week/session updates it issues, in order, each as
  (id, week\_number, session\_number). A session whose stored pair is the assigned one
  gets no update.
\<close>

fun renumber_loop :: "zone \<Rightarrow> counters \<Rightarrow> session list \<Rightarrow> (int \<times> int \<times> int) list" where
  "renumber_loop z c [] = []"
| "renumber_loop z c (s # rest) =
     (let c' = renumber_step z c (date s)
      in (if week_number s \<noteq> currentWeekNumber c' \<or> session_number s \<noteq> sessionInWeek c'
          then [(session_id s, currentWeekNumber c', sessionInWeek c')] else [])
         @ renumber_loop z c' rest)"

definition renumber_updates :: "zone \<Rightarrow> session list \<Rightarrow> (int \<times> int \<times> int) list" where
  "renumber_updates z updatedSessions =
     (case updatedSessions of [] \<Rightarrow> []
      | s # _ \<Rightarrow> renumber_loop z (initial_counters (date s)) updatedSessions)"

text \<open>The result of these updates is not inspected by the handler; a failed one changes nothing.\<close>

fun store_renumbering :: "(int \<Rightarrow> bool) \<Rightarrow> (int \<times> int \<times> int) list \<Rightarrow> session list \<Rightarrow> session list" where
  "store_renumbering err [] table = table"
| "store_renumbering err ((i, w, n) # us) table =
     store_renumbering err us (if err i then table else update_week_session i w n table)"

section \<open>The apply handler\<close>

fun show_nat :: "nat \<Rightarrow> string" where
  "show_nat n =
     (if n < 10 then [''0123456789'' ! n]
      else show_nat (n div 10) @ [''0123456789'' ! (n mod 10)])"

declare show_nat.simps [simp del]

definition show_int :: "int \<Rightarrow> string" where
  "show_int i = (if i < 0 then CHR ''-'' # show_nat (nat (- i)) else show_nat (nat i))"

text \<open>
  The JSON bodies of the apply handler: \<open>Error e\<close> is \<^verbatim>\<open>{ error: e }\<close>;
  \<open>Partial m n es\<close> is \<^verbatim>\<open>{ success: false, message: m, updatedCount: n, errors: es }\<close>;
  \<open>Shifted m n us\<close> is \<^verbatim>\<open>{ success: true, message: m, updatedCount: n, updates: us }\<close>.
  A response without an explicit status has status 200.
\<close>

datatype body =
    Error string
  | Partial string nat "string list"
  | Shifted string nat "update list"

record response =
  status :: nat
  body :: body

text \<open>
  Step 7: one storage update per entry. The loop's state is the table, \<^verbatim>\<open>errors\<close> and
  \<^verbatim>\<open>successfulUpdates\<close>.
\<close>

fun apply_updates ::
  "(int \<Rightarrow> string option) \<Rightarrow> update list \<Rightarrow> session list \<times> string list \<times> int list
     \<Rightarrow> session list \<times> string list \<times> int list" where
  "apply_updates err [] st = st"
| "apply_updates err (u # us) (table, errors, successfulUpdates) =
     (case err (u_id u) of
        Some message \<Rightarrow>
          apply_updates err us
            (table, errors @ [''Session '' @ show_int (u_id u) @ '': '' @ message],
             successfulUpdates)
      | None \<Rightarrow>
          apply_updates err us
            (update_date_day (u_id u) (u_date u) (u_day u) table, errors,
             successfulUpdates @ [u_id u]))"

definition renumber_fetched ::
  "zone \<Rightarrow> fetch_outcome \<Rightarrow> (int \<Rightarrow> bool) \<Rightarrow> session list \<Rightarrow> session list \<Rightarrow> session list" where
  \<comment> \<open>step 8, given the outcome of the re-fetch and the rows it returned\<close>
  "renumber_fetched z outcome err updatedSessions table =
     (if outcome = FetchRows \<and> length updatedSessions > 0
      then store_renumbering err (renumber_updates z updatedSessions) table
      else table)"

definition renumber_pass :: "env \<Rightarrow> session list \<Rightarrow> session list" where
  "renumber_pass e table =
     renumber_fetched (zone e) (refetch_outcome e) (renumber_error e) (select_by_date table) table"

record post_body =
  tableName :: jsval
  sessionId :: jsval
  newDate :: "isodate option"

text \<open>
  The handler, from the parsed request body to the response and the table it leaves.
  \<open>newDate\<close> is \<open>None\<close> when the field is missing or empty. \<open>POST_checks\<close> is the
  handler up to its last early return: it gives that response, or the fetched sessions,
  the index found and the new date. When the lookup succeeds, \<^verbatim>\<open>sessionId\<close> is strictly
  equal to the found row's id, which is what the first update entry carries. The
  handler's \<^verbatim>\<open>catch\<close> branch (HTTP 500) answers a request whose body cannot be parsed
  or a storage client that throws; with a parsed body and a storage that reports its
  failures in the \<^verbatim>\<open>error\<close> field, as modelled here, no step throws.
\<close>

definition POST_checks ::
  "env \<Rightarrow> session list \<Rightarrow> post_body \<Rightarrow> response + (session list \<times> nat \<times> isodate)" where
  "POST_checks e table b =
     (case newDate b of
        None \<Rightarrow>
          Inl \<lparr>status = 400,
               body = Error ''Missing required fields: tableName, sessionId, newDate''\<rparr>
      | Some new_date \<Rightarrow>
          if \<not> truthy (tableName b) \<or> \<not> truthy (sessionId b) then
            Inl \<lparr>status = 400,
                 body = Error ''Missing required fields: tableName, sessionId, newDate''\<rparr>
          else if fetch_outcome e \<noteq> FetchRows then
            Inl \<lparr>status = 500, body = Error ''Failed to fetch sessions''\<rparr>
          else
            let allSessions = select_by_week table in
            case findIndex (\<lambda>s. strict_eq (JNum (session_id s)) (sessionId b)) allSessions of
              None \<Rightarrow> Inl \<lparr>status = 404, body = Error ''Session not found''\<rparr>
            | Some sessionIndex \<Rightarrow>
                let sessionToShift = allSessions ! sessionIndex in
                if date sessionToShift = new_date then
                  Inl \<lparr>status = 400,
                       body = Error ''New date is the same as current date. No changes needed.''\<rparr>
                else if getTime (zone e) (date_at_noon new_date)
                          \<le> getTime (zone e) (setHours_zero (now e)) then
                  Inl \<lparr>status = 400,
                       body = Error ''New date must be greater than today. Cannot shift to past or current date.''\<rparr>
                else Inr (allSessions, sessionIndex, new_date))"

definition POST :: "env \<Rightarrow> session list \<Rightarrow> post_body \<Rightarrow> response \<times> session list" where
  "POST e table b =
     (case POST_checks e table b of
        Inl early \<Rightarrow> (early, table)
      | Inr (allSessions, sessionIndex, new_date) \<Rightarrow>
          let updates = build_updates (zone e) allSessions sessionIndex new_date;
              (table', errors, successfulUpdates) =
                 apply_updates (update_error e) updates (table, [], []);
              table'' = renumber_pass e table'
          in if length errors > 0 then
               (\<lparr>status = 207,
                 body = Partial (''Partially updated. '' @ show_nat (length successfulUpdates)
                                 @ '' succeeded, '' @ show_nat (length errors) @ '' failed.'')
                          (length successfulUpdates) errors\<rparr>, table'')
             else
               (\<lparr>status = 200,
                 body = Shifted (''Successfully shifted class and rescheduled ''
                                 @ show_nat (length updates - 1) @ '' subsequent classes'')
                          (length updates) updates\<rparr>, table''))"

section \<open>The preview handler\<close>

text \<open>
  The session id of a preview query is a string of UTF-16 code units, each a number
  from 0 to 65535. \<^verbatim>\<open>parseInt\<close> skips leading white space and line terminators, reads
  an optional sign, then an optional \<^verbatim>\<open>0x\<close> or \<^verbatim>\<open>0X\<close> prefix selecting radix 16, then
  the longest run of digits of the radix. Without a digit the result is NaN. Otherwise
  the result is the Number value of the integer read: the integer itself below \<open>2^53\<close>,
  and from there on the nearest integer with 53 significant bits, a tie going to the
  even one, or an infinity from \<open>2^1024\<close> on. The two zeros are not told apart, as
  strict equality does not tell them apart.
\<close>

type_synonym jsstring = "int list"

datatype number = NaN | Infinity | MinusInfinity | Finite int

definition code_units :: "string \<Rightarrow> jsstring" where
  \<comment> \<open>the code units of a string of characters below U+0100\<close>
  "code_units s = map of_char s"

definition is_white_space :: "int \<Rightarrow> bool" where
  \<comment> \<open>\<^verbatim>\<open>WhiteSpace\<close> (TAB, VT, FF, the byte order mark, the space separators) or
      \<^verbatim>\<open>LineTerminator\<close> (LF, CR, LS, PS)\<close>
  "is_white_space c =
     (c \<in> set [0x09, 0x0B, 0x0C, 0xFEFF, 0x20, 0xA0, 0x1680, 0x202F, 0x205F, 0x3000,
                0x0A, 0x0D, 0x2028, 0x2029]
      \<or> (0x2000 \<le> c \<and> c \<le> 0x200A))"

definition digit_value :: "int \<Rightarrow> int" where
  \<comment> \<open>36 for a code unit that is a digit in no radix\<close>
  "digit_value n =
     (if 48 \<le> n \<and> n \<le> 57 then n - 48
      else if 97 \<le> n \<and> n \<le> 122 then n - 87
      else if 65 \<le> n \<and> n \<le> 90 then n - 55
      else 36)"

function bit_length :: "int \<Rightarrow> nat" where
  \<comment> \<open>the number of binary digits of a positive integer\<close>
  "bit_length n = (if n \<le> 0 then 0 else Suc (bit_length (n div 2)))"
  by pat_completeness auto
termination
  by (relation "measure nat") auto

declare bit_length.simps [simp del]

definition round_to_double :: "int \<Rightarrow> int option" where
  \<comment> \<open>the Number value of a natural number; \<open>None\<close> when it is infinite\<close>
  "round_to_double n =
     (if bit_length n \<le> 53 then Some n
      else let k = bit_length n - 53;
               q = n div 2 ^ k;
               r = n mod 2 ^ k;
               q' = (if r > 2 ^ (k - 1) \<or> (r = 2 ^ (k - 1) \<and> odd q) then q + 1 else q)
           in if q' * 2 ^ k \<ge> 2 ^ 1024 then None else Some (q' * 2 ^ k))"

definition parseInt :: "jsstring \<Rightarrow> number" where
  "parseInt input =
     (let s1 = dropWhile is_white_space input;
          (negative, s2) = (case s1 of
                              c # cs \<Rightarrow> if c = 0x2D then (True, cs)
                                        else if c = 0x2B then (False, cs) else (False, s1)
                            | [] \<Rightarrow> (False, s1));
          (radix, s3) = (case s2 of
                           c # x # cs \<Rightarrow> if c = 0x30 \<and> (x = 0x78 \<or> x = 0x58)
                                         then (16, cs) else (10, s2)
                         | _ \<Rightarrow> (10, s2));
          digits = takeWhile (\<lambda>c. digit_value c < radix) s3
      in if digits = [] then NaN
         else case round_to_double (foldl (\<lambda>acc c. acc * radix + digit_value c) 0 digits) of
                None \<Rightarrow> if negative then MinusInfinity else Infinity
              | Some m \<Rightarrow> Finite (if negative then - m else m))"

record new_date_entry =
  n_id :: int
  n_newDate :: isodate
  n_newDay :: "string option"
  oldData :: session

definition preview_entry :: "zone \<Rightarrow> session \<Rightarrow> jsdate \<Rightarrow> new_date_entry" where
  "preview_entry z s currentDate =
     \<lparr>n_id = session_id s, n_newDate = toISODate z currentDate,
      n_newDay = Some (getDayName currentDate), oldData = s\<rparr>"

definition newDates :: "zone \<Rightarrow> session list \<Rightarrow> nat \<Rightarrow> isodate \<Rightarrow> new_date_entry list" where
  "newDates z allSessions sessionIndex new_date =
     (let sessionToShift = allSessions ! sessionIndex;
          shiftedDate = date_at_noon new_date
      in \<lparr>n_id = session_id sessionToShift, n_newDate = new_date,
          n_newDay = Some (getDayName shiftedDate), oldData = sessionToShift\<rparr>
         # cascade (preview_entry z) (dayPattern allSessions) shiftedDate
             (drop (sessionIndex + 1) allSessions))"

definition allNewDates :: "zone \<Rightarrow> session list \<Rightarrow> nat \<Rightarrow> isodate \<Rightarrow> new_date_entry list" where
  \<comment> \<open>the sessions before the shifted one, unchanged, then \<^verbatim>\<open>newDates\<close>; sorted by new date\<close>
  "allNewDates z allSessions sessionIndex new_date =
     sort_key (\<lambda>a. date_only (n_newDate a))
       (map (\<lambda>s. \<lparr>n_id = session_id s, n_newDate = date s, n_newDay = day s, oldData = s\<rparr>)
            (take sessionIndex allSessions)
        @ newDates z allSessions sessionIndex new_date)"

record preview_row =
  p_id :: int
  oldWeek :: int
  oldSession :: int
  newWeek :: int
  newSession :: int
  p_session_type :: string
  p_subject_name :: string
  oldDate :: isodate
  oldDay :: "string option"
  p_newDate :: isodate
  p_newDay :: "string option"

definition gt_index :: "nat option \<Rightarrow> nat \<Rightarrow> bool" where
  \<comment> \<open>\<^verbatim>\<open>findIndex(...) > sessionIndex\<close>, where -1 is greater than no index\<close>
  "gt_index r sessionIndex = (case r of None \<Rightarrow> False | Some i \<Rightarrow> i > sessionIndex)"

fun preview_loop ::
  "zone \<Rightarrow> session list \<Rightarrow> nat \<Rightarrow> counters \<Rightarrow> new_date_entry list \<Rightarrow> preview_row list" where
  "preview_loop z allSessions sessionIndex c [] = []"
| "preview_loop z allSessions sessionIndex c (item # rest) =
     (let c' = renumber_step z c (n_newDate item)
      in (if session_id (oldData item) = session_id (allSessions ! sessionIndex)
             \<or> gt_index (findIndex (\<lambda>s. session_id s = n_id item) allSessions) sessionIndex
          then [\<lparr>p_id = n_id item, oldWeek = week_number (oldData item),
                 oldSession = session_number (oldData item),
                 newWeek = currentWeekNumber c', newSession = sessionInWeek c',
                 p_session_type = session_type (oldData item),
                 p_subject_name = subject_name (oldData item),
                 oldDate = date (oldData item), oldDay = day (oldData item),
                 p_newDate = n_newDate item, p_newDay = n_newDay item\<rparr>]
          else [])
         @ preview_loop z allSessions sessionIndex c' rest)"

definition preview :: "zone \<Rightarrow> session list \<Rightarrow> nat \<Rightarrow> isodate \<Rightarrow> preview_row list" where
  "preview z allSessions sessionIndex new_date =
     (let items = allNewDates z allSessions sessionIndex new_date
      in case items of
           [] \<Rightarrow> []
         | first # _ \<Rightarrow>
             preview_loop z allSessions sessionIndex (initial_counters (n_newDate first)) items)"

text \<open>
  The JSON bodies of the preview handler: \<open>GetError e\<close> is \<^verbatim>\<open>{ error: e }\<close>;
  \<open>GetFailure e\<close> is \<^verbatim>\<open>{ success: false, error: e }\<close>; \<open>Preview s n ds rows\<close> is
  \<^verbatim>\<open>{ success: true, shiftedSession: s, affectedCount: n, dayPattern: ds, preview: rows }\<close>
  with \<open>s\<close> the id, week number and session number of the shifted session.
\<close>

datatype get_body =
    GetError string
  | GetFailure string
  | Preview "int \<times> int \<times> int" nat "string list" "preview_row list"

record get_response =
  g_status :: nat
  g_body :: get_body

record get_params =
  q_tableName :: "string option"
  q_sessionId :: "jsstring option"
  q_newDate :: "isodate option"

text \<open>
  A query parameter is a string or null; \<open>q_newDate\<close> is \<open>None\<close> when the parameter is
  absent or empty. The handler writes nothing, so its result is the response alone.
  \<open>GET_checks\<close> is the handler up to its last early return.
\<close>

definition GET_checks ::
  "env \<Rightarrow> session list \<Rightarrow> get_params \<Rightarrow> get_response + (session list \<times> nat \<times> isodate)" where
  "GET_checks e table q =
     (case (q_tableName q, q_sessionId q, q_newDate q) of
        (Some tn, Some sid, Some new_date) \<Rightarrow>
          if tn = [] \<or> sid = [] then
            Inl \<lparr>g_status = 400,
                 g_body = GetError ''Missing required params: tableName, sessionId, newDate''\<rparr>
          else if fetch_outcome e \<noteq> FetchRows then
            Inl \<lparr>g_status = 500, g_body = GetError ''Failed to fetch sessions''\<rparr>
          else
            let allSessions = select_by_week table in
            case findIndex (\<lambda>s. Finite (session_id s) = parseInt sid) allSessions of
              None \<Rightarrow> Inl \<lparr>g_status = 404, g_body = GetError ''Session not found''\<rparr>
            | Some sessionIndex \<Rightarrow>
                let sessionToShift = allSessions ! sessionIndex in
                if date sessionToShift = new_date then
                  Inl \<lparr>g_status = 400,
                       g_body = GetFailure ''New date is the same as current date. Please select a different date.''\<rparr>
                else if getTime (zone e) (date_at_noon new_date)
                          \<le> getTime (zone e) (setHours_zero (now e)) then
                  Inl \<lparr>g_status = 400,
                       g_body = GetFailure ''New date must be greater than today. Cannot shift to past or current date.''\<rparr>
                else Inr (allSessions, sessionIndex, new_date)
      | _ \<Rightarrow>
          Inl \<lparr>g_status = 400,
               g_body = GetError ''Missing required params: tableName, sessionId, newDate''\<rparr>)"

definition GET :: "env \<Rightarrow> session list \<Rightarrow> get_params \<Rightarrow> get_response" where
  "GET e table q =
     (case GET_checks e table q of
        Inl early \<Rightarrow> early
      | Inr (allSessions, sessionIndex, new_date) \<Rightarrow>
          let sessionToShift = allSessions ! sessionIndex;
              rows = preview (zone e) allSessions sessionIndex new_date
          in \<lparr>g_status = 200,
              g_body = Preview (session_id sessionToShift, week_number sessionToShift,
                                session_number sessionToShift)
                         (length rows) (uniqueDays allSessions) rows\<rparr>)"

section \<open>Definitions used to state the properties\<close>

text \<open>The variables of the renumbering loop just before it handles the session at position
  \<open>i\<close> of a list of dates, the first date giving the initial week start.\<close>

definition counters_before :: "zone \<Rightarrow> isodate list \<Rightarrow> nat \<Rightarrow> counters" where
  "counters_before z ds i = foldl (renumber_step z) (initial_counters (hd ds)) (take i ds)"

text \<open>The stored (week\_number, session\_number) of a row, and a row with that pair replaced.\<close>

definition stored_pair :: "session \<Rightarrow> int \<times> int" where
  "stored_pair s = (week_number s, session_number s)"

definition set_pair :: "int \<times> int \<Rightarrow> session \<Rightarrow> session" where
  "set_pair p s = s\<lparr>week_number := fst p, session_number := snd p\<rparr>"

text \<open>
  A row as the renumbering leaves it when every update is stored: it carries the pair
  assigned to the fetched row with its id, if there is one.
\<close>

definition renumbered :: "zone \<Rightarrow> session list \<Rightarrow> session \<Rightarrow> session" where
  "renumbered z updatedSessions s =
     (case map_of (zip (map session_id updatedSessions) (assign z (map date updatedSessions)))
             (session_id s) of
        None \<Rightarrow> s
      | Some p \<Rightarrow> set_pair p s)"

text \<open>
  A small schedule for concrete instances: classes on Monday 2025-01-06 (day 20094),
  Wednesday 2025-01-08, a contest on Monday 2025-01-13 and a class on Wednesday
  2025-01-15, numbered as the renumbering would number them. In the example
  environment the server's zone is UTC, the request arrives on 2025-01-01 (day 20089)
  at 15:00 and the storage never fails.
\<close>

definition example_table :: "session list" where
  "example_table =
     [\<lparr>session_id = 1, week_number = 1, session_number = 1, date = 20094,
       day = Some ''Monday'', session_type = ''live'', subject_name = ''Arrays''\<rparr>,
      \<lparr>session_id = 2, week_number = 1, session_number = 2, date = 20096,
       day = Some ''Wednesday'', session_type = ''live'', subject_name = ''Strings''\<rparr>,
      \<lparr>session_id = 3, week_number = 2, session_number = 1, date = 20101,
       day = Some ''Monday'', session_type = ''contest'', subject_name = ''Contest 1''\<rparr>,
      \<lparr>session_id = 4, week_number = 2, session_number = 2, date = 20103,
       day = Some ''Wednesday'', session_type = ''live'', subject_name = ''Trees''\<rparr>]"

definition utc :: zone where
  "utc = (\<lambda>t. 0)"

definition example_env :: env where
  "example_env =
     \<lparr>zone = utc, now = 20089 * 86400000 + 54000000, fetch_outcome = FetchRows,
      update_error = (\<lambda>i. None), refetch_outcome = FetchRows,
      renumber_error = (\<lambda>i. False)\<rparr>"

text \<open>The new (week, session) pair shown in a row of the preview.\<close>

definition new_pair :: "preview_row \<Rightarrow> int \<times> int" where
  "new_pair r = (newWeek r, newSession r)"

text \<open>
  A request moving session 2 of the example schedule to Tuesday 2025-01-07 (day 20095),
  the same as a preview query, and the rows that preview shows.
\<close>

definition example_request :: post_body where
  "example_request = \<lparr>tableName = JStr ''cohort_a'', sessionId = JNum 2, newDate = Some 20095\<rparr>"

definition example_query :: get_params where
  "example_query =
     \<lparr>q_tableName = Some ''cohort_a'', q_sessionId = Some (code_units ''2''),
      q_newDate = Some 20095\<rparr>"

definition example_preview :: "preview_row list" where
  "example_preview =
     [\<lparr>p_id = 2, oldWeek = 1, oldSession = 2, newWeek = 1, newSession = 2,
       p_session_type = ''live'', p_subject_name = ''Strings'', oldDate = 20096,
       oldDay = Some ''Wednesday'', p_newDate = 20095, p_newDay = Some ''Tuesday''\<rparr>,
      \<lparr>p_id = 3, oldWeek = 2, oldSession = 1, newWeek = 1, newSession = 3,
       p_session_type = ''contest'', p_subject_name = ''Contest 1'', oldDate = 20101,
       oldDay = Some ''Monday'', p_newDate = 20096, p_newDay = Some ''Wednesday''\<rparr>,
      \<lparr>p_id = 4, oldWeek = 2, oldSession = 2, newWeek = 2, newSession = 1,
       p_session_type = ''live'', p_subject_name = ''Trees'', oldDate = 20103,
       oldDay = Some ''Wednesday'', p_newDate = 20101, p_newDay = Some ''Monday''\<rparr>]"

text \<open>
  The weekday index of one day value in the fixed table of the seven names, as a list:
  empty for a value that the table does not map.
\<close>

definition day_indices :: "string option \<Rightarrow> int list" where
  "day_indices name =
     (case name of None \<Rightarrow> []
      | Some d \<Rightarrow> (case map_of days d of None \<Rightarrow> [] | Some i \<Rightarrow> [i]))"

text \<open>
  The day-pattern detector in the words of its description: leave out the sessions
  whose type is \<^verbatim>\<open>contest\<close>; take the distinct day values of the others in the order in
  which they are first seen; map each to its weekday index and drop the values that
  have none; if nothing is left, fall back to Monday, Wednesday, Friday.
\<close>

fun first_seen :: "'a list \<Rightarrow> 'a list" where
  "first_seen [] = []"
| "first_seen (x # xs) = x # first_seen (filter (\<lambda>y. y \<noteq> x) xs)"

definition pattern_by_spec :: "session list \<Rightarrow> int list" where
  "pattern_by_spec sessions =
     (let regular = filter (\<lambda>s. session_type s \<noteq> ''contest'') sessions;
          names = first_seen (map day regular);
          indices = concat (map day_indices names)
      in if indices = [] then [1, 3, 5] else indices)"

text \<open>
  The day values of the regular sessions are free of inherited names when none of them
  is the name of a member of \<^verbatim>\<open>Object.prototype\<close>.
\<close>

definition no_inherited_names :: "session list \<Rightarrow> bool" where
  "no_inherited_names sessions =
     (\<forall>s\<in>set sessions. session_type s \<noteq> ''contest'' \<longrightarrow>
        (case day s of None \<Rightarrow> True | Some d \<Rightarrow> d \<notin> set object_prototype_members))"

text \<open>
  The weekdays on which the cascade may place a session: Monday to Friday for a
  contest, the weekdays of the pattern for any other session.
\<close>

definition allowed_days :: "jsval list \<Rightarrow> session \<Rightarrow> int set" where
  "allowed_days pattern s =
     (if session_type s = ''contest'' then {1, 2, 3, 4, 5} else {i. JNum i \<in> set pattern})"

text \<open>
  The weekday of a calendar date, 0 = Sunday .. 6 = Saturday, and the ids, new dates
  and new day names of the rows that a preview response shows.
\<close>

definition weekday :: "isodate \<Rightarrow> int" where
  "weekday d = (d + 4) mod 7"

definition shown_dates :: "get_response \<Rightarrow> (int \<times> isodate \<times> string option) list" where
  "shown_dates r =
     (case g_body r of
        Preview shifted n pattern rows \<Rightarrow> map (\<lambda>row. (p_id row, p_newDate row, p_newDay row)) rows
      | _ \<Rightarrow> [])"

text \<open>
  A zone keeps the date at noon when its offset is always more than -12 hours and at
  most +12 hours: then the UTC date of a local noon is the local date.
\<close>

definition keeps_date_at_noon :: "zone \<Rightarrow> bool" where
  "keeps_date_at_noon z = (\<forall>t. - (12 * 60 * 60 * 1000) < z t \<and> z t \<le> 12 * 60 * 60 * 1000)"

text \<open>
  The calendar day that a wall clock shows, and the zones whose offsets from UTC differ
  from one another by less than 12 hours, as the changes for daylight saving time do.
\<close>

definition local_date :: "jsdate \<Rightarrow> isodate" where
  "local_date t = t div ms_per_day"

definition shifts_below_12h :: "zone \<Rightarrow> bool" where
  "shifts_below_12h z = (\<forall>a b. z a - z b < 12 * 60 * 60 * 1000)"

text \<open>A zone has a fixed offset when its offset from UTC never changes.\<close>

definition fixed_offset :: "zone \<Rightarrow> bool" where
  "fixed_offset z = (\<forall>a b. z a = z b)"

text \<open>
  The storage after one date/day update; the error lines the apply loop collects for a
  list of updates; and the updates of the list that succeed.
\<close>

definition store_update :: "session list \<Rightarrow> update \<Rightarrow> session list" where
  "store_update table u = update_date_day (u_id u) (u_date u) (u_day u) table"

definition error_lines :: "(int \<Rightarrow> string option) \<Rightarrow> update list \<Rightarrow> string list" where
  "error_lines err us =
     concat (map (\<lambda>u. case err (u_id u) of
                          None \<Rightarrow> []
                        | Some message \<Rightarrow> [''Session '' @ show_int (u_id u) @ '': '' @ message])
                 us)"

definition succeeded :: "(int \<Rightarrow> string option) \<Rightarrow> update list \<Rightarrow> update list" where
  "succeeded err us = filter (\<lambda>u. err (u_id u) = None) us"

text \<open>The columns of a row that the renumbering does not write.\<close>

definition untouched :: "session \<Rightarrow> int \<times> isodate \<times> string option \<times> string \<times> string" where
  "untouched s = (session_id s, date s, day s, session_type s, subject_name s)"

text \<open>An environment in which the date/day update of session 3 fails.\<close>

definition example_failing_env :: env where
  "example_failing_env =
     example_env\<lparr>update_error := (\<lambda>i. if i = 3 then Some ''timeout'' else None)\<rparr>"

text \<open>
  Further instances: an environment in which the re-fetch after the updates fails;
  requests that give the session id as a string, \<^verbatim>\<open>"2"\<close> and the empty string; and a
  request and a preview query that move session 1 to the day on which they arrive.
\<close>

definition example_refetch_failing_env :: env where
  "example_refetch_failing_env = example_env\<lparr>refetch_outcome := FetchError\<rparr>"

definition example_string_id_request :: post_body where
  "example_string_id_request =
     \<lparr>tableName = JStr ''cohort_a'', sessionId = JStr ''2'', newDate = Some 20095\<rparr>"

definition example_empty_id_request :: post_body where
  "example_empty_id_request =
     \<lparr>tableName = JStr ''cohort_a'', sessionId = JStr [], newDate = Some 20095\<rparr>"

definition example_today_request :: post_body where
  "example_today_request =
     \<lparr>tableName = JStr ''cohort_a'', sessionId = JNum 1, newDate = Some 20089\<rparr>"

definition example_today_query :: get_params where
  "example_today_query =
     \<lparr>q_tableName = Some ''cohort_a'', q_sessionId = Some (code_units ''1''),
      q_newDate = Some 20089\<rparr>"

text \<open>
  A schedule whose regular sessions all carry the day value \<^verbatim>\<open>constructor\<close>, which is
  no weekday name, and a request and a query moving its first session to Tuesday
  2025-01-07.
\<close>

definition example_inherited_table :: "session list" where
  "example_inherited_table =
     [\<lparr>session_id = 1, week_number = 1, session_number = 1, date = 20094,
       day = Some ''constructor'', session_type = ''live'', subject_name = ''Arrays''\<rparr>,
      \<lparr>session_id = 2, week_number = 1, session_number = 2, date = 20096,
       day = Some ''constructor'', session_type = ''live'', subject_name = ''Strings''\<rparr>,
      \<lparr>session_id = 3, week_number = 2, session_number = 1, date = 20101,
       day = Some ''constructor'', session_type = ''live'', subject_name = ''Trees''\<rparr>]"

definition example_inherited_request :: post_body where
  "example_inherited_request =
     \<lparr>tableName = JStr ''cohort_b'', sessionId = JNum 1, newDate = Some 20095\<rparr>"

definition example_inherited_query :: get_params where
  "example_inherited_query =
     \<lparr>q_tableName = Some ''cohort_b'', q_sessionId = Some (code_units ''1''),
      q_newDate = Some 20095\<rparr>"

text \<open>
  A server whose zone is 13 hours east of UTC all year, as Tonga's is; the request
  arrives when its clock shows 2025-01-01 15:00.
\<close>

definition example_east_env :: env where
  "example_east_env = example_env\<lparr>zone := (\<lambda>t. 13 * 60 * 60 * 1000)\<rparr>"

text \<open>
  The zone of New York around the start of daylight saving time in 2025: five hours
  west of UTC until the clocks go from 02:00 to 03:00 on Sunday 2025-03-09
  (day 20156), four hours west from then on. A server in that zone has a schedule with
  classes on Monday 2025-03-03 (day 20150) and Wednesday 2025-03-05; on 2025-02-20 at
  15:00 a request, and a query, move the second class to Monday 2025-03-10
  (day 20157), seven days after the first.
\<close>

definition new_york :: zone where
  "new_york = (\<lambda>t. if t < 20156 * 86400000 + 2 * 3600000 then - (5 * 3600000)
                     else - (4 * 3600000))"

definition example_dst_env :: env where
  "example_dst_env = example_env\<lparr>zone := new_york, now := 20139 * 86400000 + 54000000\<rparr>"

definition example_dst_table :: "session list" where
  "example_dst_table =
     [\<lparr>session_id = 1, week_number = 1, session_number = 1, date = 20150,
       day = Some ''Monday'', session_type = ''live'', subject_name = ''Arrays''\<rparr>,
      \<lparr>session_id = 2, week_number = 1, session_number = 2, date = 20152,
       day = Some ''Wednesday'', session_type = ''live'', subject_name = ''Strings''\<rparr>]"

definition example_dst_request :: post_body where
  "example_dst_request =
     \<lparr>tableName = JStr ''cohort_c'', sessionId = JNum 2, newDate = Some 20157\<rparr>"

definition example_dst_query :: get_params where
  "example_dst_query =
     \<lparr>q_tableName = Some ''cohort_c'', q_sessionId = Some (code_units ''2''),
      q_newDate = Some 20157\<rparr>"

text \<open>The id, date and stored pair of a row.\<close>

definition numbering :: "session \<Rightarrow> int \<times> isodate \<times> int \<times> int" where
  "numbering s = (session_id s, date s, week_number s, session_number s)"

text \<open>
  Preview queries for session 2 of the example schedule that spell the id with a
  leading no-break space (U+00A0), and a schedule with one session whose id is \<open>2^53\<close>.
\<close>

definition example_nbsp_query :: get_params where
  "example_nbsp_query =
     \<lparr>q_tableName = Some ''cohort_a'', q_sessionId = Some (0xA0 # code_units ''2''),
      q_newDate = Some 20095\<rparr>"

definition example_large_id_table :: "session list" where
  "example_large_id_table =
     [\<lparr>session_id = 9007199254740992, week_number = 1, session_number = 1, date = 20094,
       day = Some ''Monday'', session_type = ''live'', subject_name = ''Arrays''\<rparr>]"

definition example_large_id_query :: get_params where
  "example_large_id_query =
     \<lparr>q_tableName = Some ''cohort_d'', q_sessionId = Some (code_units ''9007199254740993''),
      q_newDate = Some 20095\<rparr>"

section \<open>Properties of dates and of the date projector\<close>

lemma getDay_add_days: "getDay (t + k * ms_per_day) = (getDay t + k) mod 7"
proof -
  have "(t + k * ms_per_day) div ms_per_day = t div ms_per_day + k"
    by (simp add: ms_per_day_def)
  moreover have "((t div ms_per_day + 4) mod 7 + k) mod 7 = ((t div ms_per_day + 4) + k) mod 7"
    by (rule mod_add_left_eq)
  ultimately show ?thesis
    by (simp add: getDay_def ac_simps)
qed

lemma getDay_range: "0 \<le> getDay t \<and> getDay t < 7"
  by (simp add: getDay_def)

lemma noon_offset_div:
  assumes "- (12 * 60 * 60 * 1000) < x" and "x \<le> 12 * 60 * 60 * 1000"
  shows "(d * ms_per_day + 12 * 60 * 60 * 1000 - x) div ms_per_day = d"
proof -
  define r where "r = 12 * 60 * 60 * 1000 - x"
  have r: "0 \<le> r" "r < ms_per_day"
    using assms by (simp_all add: r_def ms_per_day_def)
  have "(r + d * ms_per_day) div ms_per_day = d + r div ms_per_day"
    by (simp add: ms_per_day_def)
  moreover have "r div ms_per_day = 0"
    using r by (rule div_pos_pos_trivial)
  moreover have "d * ms_per_day + 12 * 60 * 60 * 1000 - x = r + d * ms_per_day"
    by (simp add: r_def)
  ultimately show ?thesis by (simp only:)
qed

lemma toISODate_noon: "keeps_date_at_noon z \<Longrightarrow> toISODate z (date_at_noon d) = d"
  unfolding toISODate_def getTime_def date_at_noon_def keeps_date_at_noon_def
  by (intro noon_offset_div) auto

lemma keeps_date_at_noon_utc [simp]: "keeps_date_at_noon utc"
  by (simp add: keeps_date_at_noon_def utc_def)

lemma toISODate_noon_utc [simp]: "toISODate utc (date_at_noon d) = d"
  by (simp add: toISODate_noon)

lemma noon_add_days: "date_at_noon d + k * ms_per_day = date_at_noon (d + k)"
  by (simp add: date_at_noon_def algebra_simps)

lemma getDay_noon: "getDay (date_at_noon d) = weekday d"
proof -
  have "(12 * 60 * 60 * 1000 + d * ms_per_day) div ms_per_day = d"
    by (simp add: ms_per_day_def)
  then show ?thesis by (simp add: getDay_def weekday_def date_at_noon_def ac_simps)
qed

lemma findNextDay_loop_scan:
  "i \<le> 7 \<Longrightarrow>
   \<exists>k\<le>7 - i. findNextDay_loop i targetDays result = result + int k * ms_per_day
      \<and> (\<forall>j<k. JNum (getDay (result + int j * ms_per_day)) \<notin> set targetDays)
      \<and> (k < 7 - i \<longrightarrow> JNum (getDay (result + int k * ms_per_day)) \<in> set targetDays)"
proof (induction i targetDays result rule: findNextDay_loop.induct)
  case (1 i targetDays result)
  show ?case
  proof (cases "i < 7")
    case False
    with 1(2) have "i = 7" by simp
    then have "findNextDay_loop i targetDays result = result"
      by (subst findNextDay_loop.simps) simp
    then show ?thesis using \<open>i = 7\<close> by simp
  next
    case True
    show ?thesis
    proof (cases "JNum (getDay result) \<in> set targetDays")
      case hit: True
      with True have "findNextDay_loop i targetDays result = result"
        by (subst findNextDay_loop.simps) simp
      with hit True show ?thesis
        by (intro exI[of _ 0]) simp
    next
      case miss: False
      from True have "i + 1 \<le> 7" by simp
      from 1(1)[OF True miss this] obtain k where k:
        "k \<le> 7 - (i + 1)"
        "findNextDay_loop (i + 1) targetDays (setDate_next result)
           = setDate_next result + int k * ms_per_day"
        "\<forall>j<k. JNum (getDay (setDate_next result + int j * ms_per_day)) \<notin> set targetDays"
        "k < 7 - (i + 1) \<longrightarrow> JNum (getDay (setDate_next result + int k * ms_per_day)) \<in> set targetDays"
        by blast
      have shift: "setDate_next result + int j * ms_per_day = result + int (Suc j) * ms_per_day" for j
        by (simp add: setDate_next_def algebra_simps)
      have eq: "findNextDay_loop i targetDays result = result + int (Suc k) * ms_per_day"
        using True miss k(2) by (subst findNextDay_loop.simps) (simp add: shift)
      have misses: "\<forall>j<Suc k. JNum (getDay (result + int j * ms_per_day)) \<notin> set targetDays"
      proof (intro allI impI)
        fix j assume "j < Suc k"
        show "JNum (getDay (result + int j * ms_per_day)) \<notin> set targetDays"
        proof (cases j)
          case 0
          with miss show ?thesis by simp
        next
          case (Suc j')
          with \<open>j < Suc k\<close> k(3) show ?thesis by (simp add: shift del: of_nat_Suc)
        qed
      qed
      have "Suc k \<le> 7 - i" using k(1) True by simp
      moreover have "Suc k < 7 - i \<longrightarrow> JNum (getDay (result + int (Suc k) * ms_per_day)) \<in> set targetDays"
        using k(4) by (simp add: shift del: of_nat_Suc)
      ultimately show ?thesis using eq misses by blast
    qed
  qed
qed

lemma findNextDay_scan:
  "\<exists>k. 1 \<le> k \<and> k \<le> 8 \<and> findNextDay fromDate targetDays = fromDate + k * ms_per_day
      \<and> (\<forall>j. 1 \<le> j \<and> j < k \<longrightarrow> JNum (getDay (fromDate + j * ms_per_day)) \<notin> set targetDays)
      \<and> (k < 8 \<longrightarrow> JNum (getDay (fromDate + k * ms_per_day)) \<in> set targetDays)"
proof -
  from findNextDay_loop_scan[of 0 targetDays "setDate_next fromDate"] obtain k where k:
    "k \<le> 7"
    "findNextDay_loop 0 targetDays (setDate_next fromDate) = setDate_next fromDate + int k * ms_per_day"
    "\<forall>j<k. JNum (getDay (setDate_next fromDate + int j * ms_per_day)) \<notin> set targetDays"
    "k < 7 \<longrightarrow> JNum (getDay (setDate_next fromDate + int k * ms_per_day)) \<in> set targetDays"
    by auto
  have shift: "setDate_next fromDate + int j * ms_per_day = fromDate + (int j + 1) * ms_per_day" for j
    by (simp add: setDate_next_def algebra_simps)
  have "\<forall>j. 1 \<le> j \<and> j < int k + 1 \<longrightarrow> JNum (getDay (fromDate + j * ms_per_day)) \<notin> set targetDays"
  proof (intro allI impI)
    fix j :: int assume j: "1 \<le> j \<and> j < int k + 1"
    then have "nat (j - 1) < k" by linarith
    with k(3) have "JNum (getDay (setDate_next fromDate + int (nat (j - 1)) * ms_per_day)) \<notin> set targetDays"
      by blast
    moreover have "setDate_next fromDate + int (nat (j - 1)) * ms_per_day = fromDate + j * ms_per_day"
      using j shift[of "nat (j - 1)"] by simp
    ultimately show "JNum (getDay (fromDate + j * ms_per_day)) \<notin> set targetDays"
      by simp
  qed
  moreover have "int k + 1 < 8 \<longrightarrow> JNum (getDay (fromDate + (int k + 1) * ms_per_day)) \<in> set targetDays"
    using k(4) by (simp add: shift)
  moreover have "findNextDay fromDate targetDays = fromDate + (int k + 1) * ms_per_day"
    using k(2) by (simp add: findNextDay_def shift)
  moreover have "1 \<le> int k + 1 \<and> int k + 1 \<le> 8" using k(1) by simp
  ultimately show ?thesis by blast
qed

lemma week_covers:
  assumes "w \<in> {0..6::int}"
  shows "\<exists>j. 1 \<le> j \<and> j \<le> 7 \<and> getDay (t + j * ms_per_day) = w"
proof -
  define g where "g = getDay t"
  define j where "j = (w - g - 1) mod 7 + 1"
  have "1 \<le> j \<and> j \<le> 7" by (simp add: j_def)
  moreover have "(g + j) mod 7 = w"
  proof -
    have "(g + j) mod 7 = ((w - g - 1) mod 7 + (g + 1)) mod 7"
      by (simp add: j_def ac_simps)
    also have "\<dots> = ((w - g - 1) + (g + 1)) mod 7"
      by (rule mod_add_left_eq)
    also have "\<dots> = w mod 7" by simp
    also have "\<dots> = w" using assms by simp
    finally show ?thesis .
  qed
  ultimately show ?thesis unfolding g_def by (auto simp: getDay_add_days)
qed

text \<open>
  C2, as the code has it. When none of the seven dates examined, \<open>fromDate\<close> + 1 day to
  \<open>fromDate\<close> + 7 days, falls on a target weekday, \<^verbatim>\<open>findNextDay\<close> returns
  \<open>fromDate\<close> + 8 days: the loop moves the date on once more after the last test, so the
  value returned is one day past the last value examined. This happens only when no
  weekday number 0..6 is a target.
\<close>

theorem findNextDay_no_match:
  assumes "\<forall>k\<in>{1..7}. JNum (getDay (fromDate + k * ms_per_day)) \<notin> set targetDays"
  shows "findNextDay fromDate targetDays = fromDate + 8 * ms_per_day
         \<and> set targetDays \<inter> JNum ` {0..6} = {}"
proof -
  from findNextDay_scan[of fromDate targetDays] obtain k where k:
    "1 \<le> k" "k \<le> 8" "findNextDay fromDate targetDays = fromDate + k * ms_per_day"
    "k < 8 \<longrightarrow> JNum (getDay (fromDate + k * ms_per_day)) \<in> set targetDays"
    by blast
  have "k = 8"
  proof (rule ccontr)
    assume "k \<noteq> 8"
    with k have "k \<in> {1..7}" "JNum (getDay (fromDate + k * ms_per_day)) \<in> set targetDays" by auto
    with assms show False by blast
  qed
  moreover have "set targetDays \<inter> JNum ` {0..6} = {}"
  proof (rule ccontr)
    assume "set targetDays \<inter> JNum ` {0..6} \<noteq> {}"
    then obtain w where w: "JNum w \<in> set targetDays" "w \<in> {0..6}" by blast
    from week_covers[OF w(2), of fromDate] obtain j where
      "1 \<le> j" "j \<le> 7" "getDay (fromDate + j * ms_per_day) = w" by blast
    with assms w(1) show False by auto
  qed
  ultimately show ?thesis using k(3) by simp
qed

text \<open>An instance: from noon of 2025-01-01 (day 20089) with no target at all.\<close>

theorem findNextDay_no_match_witness:
  "findNextDay (date_at_noon 20089) [] = date_at_noon 20089 + 8 * ms_per_day
   \<and> set ([] :: jsval list) \<inter> JNum ` {0..6} = {}"
  using findNextDay_no_match [of "date_at_noon 20089" "[]"] by simp

text \<open>
  The same call does not return \<open>fromDate\<close> + 7 days, the last value examined.
\<close>

theorem findNextDay_plus_seven_counterexample:
  "findNextDay (date_at_noon 20089) [] \<noteq> date_at_noon 20089 + 7 * ms_per_day"
  by code_simp

section \<open>Properties of the renumbering\<close>

lemma noons_apart: "date_at_noon d - date_at_noon a = (d - a) * ms_per_day"
  by (simp add: date_at_noon_def algebra_simps)

lemma seven_le_div:
  assumes "0 < (m::int)"
  shows "(7 \<le> x div m) = (7 * m \<le> x)"
proof -
  have "(x - 6 * m) div m = x div m - 6"
    using assms div_mult_self1[of m "x - 6 * m" 6] by simp
  moreover have "(0 < (x - 6 * m) div m) = (m \<le> x - 6 * m)"
    using assms by (rule pos_imp_zdiv_pos_iff)
  ultimately show ?thesis by linarith
qed

lemma renumber_step_cases:
  "renumber_step z c d =
     (if 7 * ms_per_day \<le> getTime z (date_at_noon d) - getTime z (weekStartDate c)
      then \<lparr>currentWeekNumber = currentWeekNumber c + 1, sessionInWeek = 1,
            weekStartDate = date_at_noon d\<rparr>
      else c\<lparr>sessionInWeek := sessionInWeek c + 1\<rparr>)"
proof -
  have "0 < ms_per_day" by (simp add: ms_per_day_def)
  then have "(7 \<le> (getTime z (date_at_noon d) - getTime z (weekStartDate c)) div ms_per_day)
          = (7 * ms_per_day \<le> getTime z (date_at_noon d) - getTime z (weekStartDate c))"
    by (rule seven_le_div)
  then show ?thesis by (simp add: renumber_step_def Let_def)
qed

lemma renumber_step_pair_less:
  "(currentWeekNumber c, sessionInWeek c)
     < (currentWeekNumber (renumber_step z c d), sessionInWeek (renumber_step z c d))"
  by (simp add: renumber_step_cases)

lemma renumber_step_successor:
  "(currentWeekNumber (renumber_step z c d), sessionInWeek (renumber_step z c d))
     = (currentWeekNumber c, sessionInWeek c + 1)
   \<or> (currentWeekNumber (renumber_step z c d), sessionInWeek (renumber_step z c d))
     = (currentWeekNumber c + 1, 1)"
  by (simp add: renumber_step_cases)

lemma length_assign_from [simp]: "length (assign_from z c ds) = length ds"
  by (induction ds arbitrary: c) (simp_all add: Let_def)

lemma length_assign [simp]: "length (assign z ds) = length ds"
  by (cases ds) (simp_all add: assign_def del: assign_from.simps)

lemma assign_from_above:
  "p \<in> set (assign_from z c ds) \<Longrightarrow> (currentWeekNumber c, sessionInWeek c) < p"
proof (induction ds arbitrary: c)
  case Nil
  then show ?case by simp
next
  case (Cons d ds)
  let ?c' = "renumber_step z c d"
  have step: "(currentWeekNumber c, sessionInWeek c) < (currentWeekNumber ?c', sessionInWeek ?c')"
    by (rule renumber_step_pair_less)
  from Cons.prems consider "p = (currentWeekNumber ?c', sessionInWeek ?c')"
    | "p \<in> set (assign_from z ?c' ds)" by (auto simp: Let_def)
  then show ?case
  proof cases
    case 1
    with step show ?thesis by simp
  next
    case 2
    from Cons.IH[OF 2] step show ?thesis by (rule order.strict_trans[rotated])
  qed
qed

lemma assign_from_increasing: "sorted_wrt (<) (assign_from z c ds)"
  by (induction ds arbitrary: c) (auto simp: Let_def dest: assign_from_above)

lemma assign_increasing: "sorted_wrt (<) (assign z ds)"
  by (cases ds) (simp_all add: assign_def assign_from_increasing del: assign_from.simps)

lemma assign_from_nth:
  "i < length ds \<Longrightarrow>
   assign_from z c ds ! i =
     (currentWeekNumber (foldl (renumber_step z) c (take (Suc i) ds)),
      sessionInWeek (foldl (renumber_step z) c (take (Suc i) ds)))"
proof (induction ds arbitrary: c i)
  case Nil
  then show ?case by simp
next
  case (Cons d ds)
  then show ?case by (cases i) (simp_all add: Let_def)
qed


lemma assign_nth:
  "i < length ds \<Longrightarrow>
   assign z ds ! i =
     (currentWeekNumber (foldl (renumber_step z) (initial_counters (hd ds)) (take (Suc i) ds)),
      sessionInWeek (foldl (renumber_step z) (initial_counters (hd ds)) (take (Suc i) ds)))"
  by (cases ds) (simp_all add: assign_def assign_from_nth del: assign_from.simps)

lemma foldl_take_Suc:
  "i < length ds \<Longrightarrow> foldl f c (take (Suc i) ds) = f (foldl f c (take i ds)) (ds ! i)"
  by (simp add: take_Suc_conv_app_nth)

lemma assign_nth_step:
  "i < length ds \<Longrightarrow>
   assign z ds ! i =
     (currentWeekNumber (renumber_step z (counters_before z ds i) (ds ! i)),
      sessionInWeek (renumber_step z (counters_before z ds i) (ds ! i)))"
  by (simp add: assign_nth counters_before_def foldl_take_Suc del: take_Suc)

lemma counters_before_Suc:
  "i < length ds \<Longrightarrow> counters_before z ds (Suc i) = renumber_step z (counters_before z ds i) (ds ! i)"
  by (simp add: counters_before_def foldl_take_Suc del: take_Suc)

lemma week_anchor:
  "i < length ds \<Longrightarrow>
   \<exists>j\<le>i. weekStartDate (counters_before z ds (Suc i)) = date_at_noon (ds ! j)
         \<and> assign z ds ! j = (currentWeekNumber (counters_before z ds (Suc i)), 1)"
proof (induction i)
  case 0
  then have "ds \<noteq> []" by auto
  then have hd: "hd ds = ds ! 0" by (simp add: hd_conv_nth)
  have c0: "counters_before z ds 0 = initial_counters (ds ! 0)"
    by (simp add: counters_before_def hd)
  have "renumber_step z (initial_counters (ds ! 0)) (ds ! 0)
          = \<lparr>currentWeekNumber = 1, sessionInWeek = 1, weekStartDate = date_at_noon (ds ! 0)\<rparr>"
    by (simp add: renumber_step_cases initial_counters_def ms_per_day_def)
  with c0 counters_before_Suc[OF 0] assign_nth_step[OF 0] show ?case by simp
next
  case (Suc i)
  then have i: "i < length ds" by simp
  from Suc.IH[OF i] obtain j where j: "j \<le> i"
    "weekStartDate (counters_before z ds (Suc i)) = date_at_noon (ds ! j)"
    "assign z ds ! j = (currentWeekNumber (counters_before z ds (Suc i)), 1)" by blast
  let ?c = "counters_before z ds (Suc i)"
  let ?d = "ds ! Suc i"
  have next_c: "counters_before z ds (Suc (Suc i)) = renumber_step z ?c ?d"
    using Suc.prems by (rule counters_before_Suc)
  have here: "assign z ds ! Suc i = (currentWeekNumber (renumber_step z ?c ?d),
                                   sessionInWeek (renumber_step z ?c ?d))"
    using Suc.prems by (rule assign_nth_step)
  show ?case
  proof (cases "7 * ms_per_day \<le> getTime z (date_at_noon ?d) - getTime z (weekStartDate ?c)")
    case True
    then have "weekStartDate (renumber_step z ?c ?d) = date_at_noon ?d"
      "sessionInWeek (renumber_step z ?c ?d) = 1"
      by (simp_all add: renumber_step_cases)
    with here next_c show ?thesis by (intro exI[of _ "Suc i"]) simp
  next
    case False
    then have "weekStartDate (renumber_step z ?c ?d) = weekStartDate ?c"
      "currentWeekNumber (renumber_step z ?c ?d) = currentWeekNumber ?c"
      by (simp_all add: renumber_step_cases)
    with j next_c show ?thesis by (intro exI[of _ j]) simp
  qed
qed

lemma assign_first: "ds \<noteq> [] \<Longrightarrow> assign z ds ! 0 = (1, 1)"
  by (cases ds) (simp_all add: assign_def renumber_step_cases initial_counters_def ms_per_day_def Let_def)

lemma rolling_week_rule:
  assumes len: "Suc i < length ds"
  shows "\<exists>j\<le>i. assign z ds ! j = (fst (assign z ds ! i), 1)
           \<and> weekStartDate (counters_before z ds (Suc i)) = date_at_noon (ds ! j)
           \<and> (if 7 * ms_per_day \<le> getTime z (date_at_noon (ds ! Suc i))
                                      - getTime z (date_at_noon (ds ! j))
               then assign z ds ! Suc i = (fst (assign z ds ! i) + 1, 1)
                    \<and> weekStartDate (counters_before z ds (Suc (Suc i)))
                        = date_at_noon (ds ! Suc i)
               else assign z ds ! Suc i = (fst (assign z ds ! i), snd (assign z ds ! i) + 1)
                    \<and> weekStartDate (counters_before z ds (Suc (Suc i)))
                        = date_at_noon (ds ! j))"
proof -
  from len have i: "i < length ds" by simp
  let ?c = "counters_before z ds (Suc i)"
  let ?d = "ds ! Suc i"
  from week_anchor[OF i] obtain j where j: "j \<le> i"
    "weekStartDate ?c = date_at_noon (ds ! j)"
    "assign z ds ! j = (currentWeekNumber ?c, 1)" by blast
  have prev: "assign z ds ! i = (currentWeekNumber ?c, sessionInWeek ?c)"
    using i by (simp add: assign_nth_step counters_before_Suc)
  have here: "assign z ds ! Suc i = (currentWeekNumber (renumber_step z ?c ?d),
                                   sessionInWeek (renumber_step z ?c ?d))"
    using len by (rule assign_nth_step)
  have next_c: "counters_before z ds (Suc (Suc i)) = renumber_step z ?c ?d"
    using len by (rule counters_before_Suc)
  show ?thesis
  proof (cases "7 * ms_per_day \<le> getTime z (date_at_noon ?d) - getTime z (date_at_noon (ds ! j))")
    case True
    then have "renumber_step z ?c ?d =
        \<lparr>currentWeekNumber = currentWeekNumber ?c + 1, sessionInWeek = 1,
         weekStartDate = date_at_noon ?d\<rparr>"
      by (simp add: renumber_step_cases j(2))
    with True j prev here next_c show ?thesis by (intro exI[of _ j]) simp
  next
    case False
    then have "renumber_step z ?c ?d = ?c\<lparr>sessionInWeek := sessionInWeek ?c + 1\<rparr>"
      by (simp add: renumber_step_cases j(2))
    with False j prev here next_c show ?thesis by (intro exI[of _ j]) simp
  qed
qed

lemma fixed_offset_days:
  assumes "fixed_offset z"
  shows "(7 * ms_per_day \<le> getTime z (date_at_noon d) - getTime z (date_at_noon a))
           = (7 \<le> d - a)"
proof -
  from assms have "z (date_at_noon d) = z (date_at_noon a)"
    by (simp add: fixed_offset_def)
  then have "getTime z (date_at_noon d) - getTime z (date_at_noon a) = (d - a) * ms_per_day"
    by (simp add: getTime_def noons_apart)
  moreover have "0 < ms_per_day" by (simp add: ms_per_day_def)
  ultimately show ?thesis by (simp only: mult_le_cancel_right_pos)
qed

lemma rolling_week_rule_fixed_offset:
  assumes "fixed_offset z" and "Suc i < length ds"
  shows "\<exists>j\<le>i. assign z ds ! j = (fst (assign z ds ! i), 1)
           \<and> weekStartDate (counters_before z ds (Suc i)) = date_at_noon (ds ! j)
           \<and> (if 7 \<le> ds ! Suc i - ds ! j
               then assign z ds ! Suc i = (fst (assign z ds ! i) + 1, 1)
                    \<and> weekStartDate (counters_before z ds (Suc (Suc i)))
                        = date_at_noon (ds ! Suc i)
               else assign z ds ! Suc i = (fst (assign z ds ! i), snd (assign z ds ! i) + 1)
                    \<and> weekStartDate (counters_before z ds (Suc (Suc i)))
                        = date_at_noon (ds ! j))"
  using rolling_week_rule[OF assms(2), of z] by (simp only: fixed_offset_days[OF assms(1)])

lemma assign_0_2_8:
  assumes "fixed_offset z"
  shows "assign z [d, d + 2, d + 8] = [(1, 1), (1, 2), (2, 1)]"
proof -
  have "z (date_at_noon (d + 2)) = z (date_at_noon d)" "z (date_at_noon (d + 8)) = z (date_at_noon d)"
    using assms by (simp_all add: fixed_offset_def)
  then show ?thesis
    by (simp add: assign_def renumber_step_cases initial_counters_def Let_def getTime_def
          date_at_noon_def ms_per_day_def)
qed

lemma set_pair_stored [simp]: "set_pair (stored_pair s) s = s"
  by (simp add: set_pair_def stored_pair_def)

lemma set_pair_fields [simp]:
  "session_id (set_pair p s) = session_id s" "date (set_pair p s) = date s"
  "stored_pair (set_pair p s) = p"
  by (simp_all add: set_pair_def stored_pair_def)

lemma update_week_session_set_pair:
  "update_week_session i w n table = map (\<lambda>s. if session_id s = i then set_pair (w, n) s else s) table"
  by (simp add: update_week_session_def set_pair_def)

lemma renumber_loop_conv:
  "renumber_loop z c xs =
     map (\<lambda>(s, (w, n)). (session_id s, w, n))
       (filter (\<lambda>(s, p). stored_pair s \<noteq> p) (zip xs (assign_from z c (map date xs))))"
  by (induction xs arbitrary: c) (auto simp: Let_def stored_pair_def)

lemma renumber_updates_conv:
  "renumber_updates z xs =
     map (\<lambda>(s, (w, n)). (session_id s, w, n))
       (filter (\<lambda>(s, p). stored_pair s \<noteq> p) (zip xs (assign z (map date xs))))"
  by (cases xs) (simp_all add: renumber_updates_def assign_def renumber_loop_conv del: renumber_loop.simps assign_from.simps)

lemma filter_zip_differs_empty:
  "length xs = length ps \<Longrightarrow>
   (filter (\<lambda>(s, p). f s \<noteq> p) (zip xs ps) = []) = (map f xs = ps)"
  by (induction xs ps rule: list_induct2) auto

lemma renumber_updates_empty_iff:
  "renumber_updates z xs = [] \<longleftrightarrow> map stored_pair xs = assign z (map date xs)"
  by (simp add: renumber_updates_conv filter_zip_differs_empty)

lemma store_renumber_loop:
  assumes "\<And>i. \<not> err i"
    and "distinct (map session_id xs)"
    and "\<forall>s\<in>set table. \<forall>x\<in>set xs. session_id s = session_id x \<longrightarrow> stored_pair s = stored_pair x"
  shows "store_renumbering err (renumber_loop z c xs) table =
         map (\<lambda>s. case map_of (zip (map session_id xs) (assign_from z c (map date xs))) (session_id s) of
                     None \<Rightarrow> s | Some p \<Rightarrow> set_pair p s) table"
  using assms(2,3)
proof (induction xs arbitrary: c table)
  case Nil
  then show ?case by simp
next
  case (Cons x rest)
  let ?c' = "renumber_step z c (date x)"
  let ?p = "(currentWeekNumber ?c', sessionInWeek ?c')"
  let ?m = "map_of (zip (map session_id rest) (assign_from z ?c' (map date rest)))"
  from Cons.prems(1) have dist: "distinct (map session_id rest)" and notin: "session_id x \<notin> session_id ` set rest"
    by auto
  have none: "?m (session_id x) = None"
    using notin by (auto simp: map_of_eq_None_iff dest!: set_zip_leftD)
  show ?case
  proof (cases "stored_pair x = ?p")
    case True
    have pre: "\<forall>s\<in>set table. \<forall>y\<in>set rest. session_id s = session_id y \<longrightarrow> stored_pair s = stored_pair y"
      using Cons.prems(2) by simp
    have "store_renumbering err (renumber_loop z c (x # rest)) table
            = store_renumbering err (renumber_loop z ?c' rest) table"
      using True by (simp add: Let_def stored_pair_def)
    also have "\<dots> = map (\<lambda>s. case ?m (session_id s) of None \<Rightarrow> s | Some p \<Rightarrow> set_pair p s) table"
      by (rule Cons.IH[OF dist pre])
    also have "\<dots> = map (\<lambda>s. case map_of (zip (map session_id (x # rest)) (assign_from z c (map date (x # rest)))) (session_id s) of
                     None \<Rightarrow> s | Some p \<Rightarrow> set_pair p s) table"
    proof (rule map_cong[OF refl])
      fix s assume s: "s \<in> set table"
      show "(case ?m (session_id s) of None \<Rightarrow> s | Some p \<Rightarrow> set_pair p s)
            = (case map_of (zip (map session_id (x # rest)) (assign_from z c (map date (x # rest)))) (session_id s) of
                     None \<Rightarrow> s | Some p \<Rightarrow> set_pair p s)"
      proof (cases "session_id s = session_id x")
        case same: True
        with Cons.prems(2) s have "stored_pair s = stored_pair x" by simp
        with True have unch: "set_pair ?p s = s" by (metis set_pair_stored)
        show ?thesis by (simp add: Let_def same none unch)
      next
        case False
        then show ?thesis by (simp add: Let_def)
      qed
    qed
    finally show ?thesis .
  next
    case False
    let ?table1 = "update_week_session (session_id x) (currentWeekNumber ?c') (sessionInWeek ?c') table"
    have pre: "\<forall>s\<in>set ?table1. \<forall>y\<in>set rest. session_id s = session_id y \<longrightarrow> stored_pair s = stored_pair y"
      using Cons.prems(2) notin by (auto simp: update_week_session_set_pair)
    have "store_renumbering err (renumber_loop z c (x # rest)) table
            = store_renumbering err (renumber_loop z ?c' rest) ?table1"
      using False assms(1) by (simp add: Let_def stored_pair_def)
    also have "\<dots> = map (\<lambda>s. case ?m (session_id s) of None \<Rightarrow> s | Some p \<Rightarrow> set_pair p s) ?table1"
      by (rule Cons.IH[OF dist pre])
    also have "\<dots> = map (\<lambda>s. case map_of (zip (map session_id (x # rest)) (assign_from z c (map date (x # rest)))) (session_id s) of
                     None \<Rightarrow> s | Some p \<Rightarrow> set_pair p s) table"
      by (auto simp: update_week_session_set_pair Let_def none)
    finally show ?thesis .
  qed
qed

lemma insort_key_map:
  assumes "\<And>x. k (f x) = k x"
  shows "insort_key k (f x) (map f ys) = map f (insort_key k x ys)"
  by (induction ys) (simp_all add: assms)

lemma sort_key_map:
  assumes "\<And>x. k (f x) = k x"
  shows "sort_key k (map f xs) = map f (sort_key k xs)"
  by (induction xs) (simp_all add: insort_key_map[of k f, OF assms])

lemma renumbered_fields [simp]:
  "session_id (renumbered z xs s) = session_id s" "date (renumbered z xs s) = date s"
  by (simp_all add: renumbered_def split: option.splits)

lemma stored_renumbered:
  assumes "distinct (map session_id xs)"
  shows "map stored_pair (map (renumbered z xs) xs) = assign z (map date xs)"
proof (rule nth_equalityI)
  show "length (map stored_pair (map (renumbered z xs) xs)) = length (assign z (map date xs))" by simp
next
  fix i assume "i < length (map stored_pair (map (renumbered z xs) xs))"
  then have i: "i < length xs" by simp
  have "map_of (zip (map session_id xs) (assign z (map date xs))) (map session_id xs ! i)
          = Some (assign z (map date xs) ! i)"
    using assms i by (intro map_of_zip_nth) simp_all
  with i show "map stored_pair (map (renumbered z xs) xs) ! i = assign z (map date xs) ! i"
    by (simp add: renumbered_def)
qed

lemma store_renumber_updates:
  assumes "\<And>i. \<not> err i" and "distinct (map session_id xs)" and "set table \<subseteq> set xs"
  shows "store_renumbering err (renumber_updates z xs) table = map (renumbered z xs) table"
proof (cases xs)
  case Nil
  with assms(3) show ?thesis by (simp add: renumber_updates_def)
next
  case (Cons x rest)
  have inj: "\<forall>s\<in>set table. \<forall>y\<in>set xs. session_id s = session_id y \<longrightarrow> stored_pair s = stored_pair y"
  proof (intro ballI impI)
    fix s y assume "s \<in> set table" "y \<in> set xs" "session_id s = session_id y"
    with assms(3) have "s \<in> set xs" by blast
    with \<open>y \<in> set xs\<close> \<open>session_id s = session_id y\<close> assms(2) have "s = y"
      by (meson distinct_map inj_onD)
    then show "stored_pair s = stored_pair y" by simp
  qed
  have "store_renumbering err (renumber_loop z (initial_counters (date x)) xs) table
        = map (\<lambda>s. case map_of (zip (map session_id xs) (assign_from z (initial_counters (date x)) (map date xs))) (session_id s) of
                     None \<Rightarrow> s | Some p \<Rightarrow> set_pair p s) table"
    by (rule store_renumber_loop[OF assms(1) assms(2) inj])
  then show ?thesis
    unfolding renumbered_def by (simp add: Cons renumber_updates_def assign_def del: renumber_loop.simps assign_from.simps)
qed

lemma set_select_by_date [simp]: "set (select_by_date table) = set table"
  by (simp add: select_by_date_def)

lemma distinct_select_by_date:
  "distinct (map session_id table) \<Longrightarrow> distinct (map session_id (select_by_date table))"
  by (simp add: select_by_date_def distinct_map)

lemma renumber_pass_ok:
  assumes "refetch_outcome e = FetchRows" and "\<And>i. \<not> renumber_error e i"
    and "distinct (map session_id table)"
  shows "renumber_pass e table = map (renumbered (zone e) (select_by_date table)) table"
proof (cases "table = []")
  case True
  then show ?thesis by (simp add: renumber_pass_def renumber_fetched_def select_by_date_def)
next
  case False
  then have "length (select_by_date table) > 0" by (simp add: select_by_date_def)
  with assms(1) have "renumber_pass e table
      = store_renumbering (renumber_error e) (renumber_updates (zone e) (select_by_date table)) table"
    by (simp add: renumber_pass_def renumber_fetched_def)
  also have "\<dots> = map (renumbered (zone e) (select_by_date table)) table"
    by (rule store_renumber_updates[OF assms(2) distinct_select_by_date[OF assms(3)]]) simp
  finally show ?thesis .
qed

lemma select_by_date_renumbered:
  "select_by_date (map (renumbered z xs) table) = map (renumbered z xs) (select_by_date table)"
  unfolding select_by_date_def by (rule sort_key_map) simp


lemma renumber_fetched_noop:
  "renumber_updates z xs = [] \<Longrightarrow> renumber_fetched z outcome err xs table = table"
  by (simp add: renumber_fetched_def)

lemma renumber_pass_stored:
  assumes "refetch_outcome e = FetchRows" and "\<And>i. \<not> renumber_error e i"
    and "distinct (map session_id table)"
  shows "map stored_pair (select_by_date (renumber_pass e table))
           = assign (zone e) (map date (select_by_date (renumber_pass e table)))"
    and "map date (select_by_date (renumber_pass e table)) = map date (select_by_date table)"
proof -
  let ?xs = "select_by_date table"
  have pass: "renumber_pass e table = map (renumbered (zone e) ?xs) table"
    by (rule renumber_pass_ok[OF assms])
  have sel: "select_by_date (renumber_pass e table) = map (renumbered (zone e) ?xs) ?xs"
    by (simp only: pass select_by_date_renumbered)
  show dates: "map date (select_by_date (renumber_pass e table)) = map date ?xs"
    by (simp add: sel)
  have "map stored_pair (map (renumbered (zone e) ?xs) ?xs) = assign (zone e) (map date ?xs)"
    by (rule stored_renumbered[OF distinct_select_by_date[OF assms(3)]])
  then show "map stored_pair (select_by_date (renumber_pass e table))
           = assign (zone e) (map date (select_by_date (renumber_pass e table)))"
    by (simp only: dates) (simp only: sel)
qed

text \<open>
  C4. The renumberer is idempotent. If the stored pairs of the fetched list already are
  the assigned pairs, the loop issues no update and the table is left as it is. And
  after one renumbering pass whose updates were all stored, on a table with distinct
  ids, the stored pairs are the assigned ones, so a second pass issues no update and
  changes nothing.
\<close>

theorem renumbering_idempotent:
  "(map stored_pair xs = assign z (map date xs) \<longrightarrow>
      renumber_updates z xs = [] \<and> renumber_fetched z outcome err xs table = table)
   \<and> (refetch_outcome e = FetchRows \<and> (\<forall>i. \<not> renumber_error e i)
        \<and> distinct (map session_id table) \<longrightarrow>
      map stored_pair (select_by_date (renumber_pass e table))
        = assign (zone e) (map date (select_by_date (renumber_pass e table)))
      \<and> renumber_updates (zone e) (select_by_date (renumber_pass e table)) = []
      \<and> renumber_pass e (renumber_pass e table) = renumber_pass e table)"
proof (intro conjI impI)
  assume "map stored_pair xs = assign z (map date xs)"
  then show u: "renumber_updates z xs = []" by (simp add: renumber_updates_empty_iff)
  then show "renumber_fetched z outcome err xs table = table" by (rule renumber_fetched_noop)
next
  assume h: "refetch_outcome e = FetchRows \<and> (\<forall>i. \<not> renumber_error e i)
        \<and> distinct (map session_id table)"
  then have st: "map stored_pair (select_by_date (renumber_pass e table))
        = assign (zone e) (map date (select_by_date (renumber_pass e table)))"
    by (intro renumber_pass_stored(1)) simp_all
  then show "map stored_pair (select_by_date (renumber_pass e table))
        = assign (zone e) (map date (select_by_date (renumber_pass e table)))" .
  from st show u: "renumber_updates (zone e) (select_by_date (renumber_pass e table)) = []"
    by (simp add: renumber_updates_empty_iff)
  then show "renumber_pass e (renumber_pass e table) = renumber_pass e table"
    by (simp add: renumber_pass_def[of e "renumber_pass e table"] renumber_fetched_noop)
qed

text \<open>An instance: the example schedule, which is numbered as the renumbering numbers it.\<close>

theorem renumbering_idempotent_witness:
  "map stored_pair example_table = assign utc (map date example_table)
   \<and> renumber_updates utc example_table = []
   \<and> refetch_outcome example_env = FetchRows
   \<and> distinct (map session_id example_table)
   \<and> renumber_pass example_env (renumber_pass example_env example_table)
       = renumber_pass example_env example_table"
proof -
  have h1: "map stored_pair example_table = assign utc (map date example_table)"
    by code_simp
  have h2: "refetch_outcome example_env = FetchRows \<and> (\<forall>i. \<not> renumber_error example_env i)
            \<and> distinct (map session_id example_table)"
    by (simp add: example_env_def example_table_def)
  note t = renumbering_idempotent[of example_table utc FetchRows "\<lambda>i. False" example_table
             example_env]
  from t h1 have c1: "renumber_updates utc example_table = []" by blast
  from t h2 have c2: "renumber_pass example_env (renumber_pass example_env example_table)
       = renumber_pass example_env example_table" by blast
  from h1 h2 c1 c2 show ?thesis by blast
qed

section \<open>Order of the assigned pairs\<close>

lemma assign_distinct: "distinct (assign z ds)"
proof -
  have "sorted_wrt (\<lambda>a b. a \<noteq> b) (assign z ds)"
    by (rule sorted_wrt_mono_rel[OF _ assign_increasing]) auto
  then show ?thesis by (simp add: distinct_conv_nth sorted_wrt_iff_nth_less) (metis nat_neq_iff)
qed

lemma assign_successor:
  assumes "Suc i < length ds"
  shows "assign z ds ! Suc i = (fst (assign z ds ! i), snd (assign z ds ! i) + 1)
         \<or> assign z ds ! Suc i = (fst (assign z ds ! i) + 1, 1)"
proof -
  from assms have i: "i < length ds" by simp
  let ?c = "counters_before z ds (Suc i)"
  have prev: "assign z ds ! i = (currentWeekNumber ?c, sessionInWeek ?c)"
    using i by (simp add: assign_nth_step counters_before_Suc)
  have here: "assign z ds ! Suc i = (currentWeekNumber (renumber_step z ?c (ds ! Suc i)),
                                   sessionInWeek (renumber_step z ?c (ds ! Suc i)))"
    using assms by (rule assign_nth_step)
  from renumber_step_successor[of z ?c "ds ! Suc i"] show ?thesis
    unfolding here prev by simp
qed

lemma map_session_id_update_date_day [simp]:
  "map session_id (update_date_day i d dy table) = map session_id table"
  by (simp add: update_date_day_def comp_def)

lemma apply_updates_ids:
  "map session_id (fst (apply_updates err us (table, errors, ok))) = map session_id table"
  by (induction us arbitrary: table errors ok) (simp_all split: option.splits)

lemma POST_table:
  assumes "POST_checks e table b = Inr (allSessions, sessionIndex, new_date)"
  shows "snd (POST e table b)
         = renumber_pass e (fst (apply_updates (update_error e)
                                  (build_updates (zone e) allSessions sessionIndex new_date) (table, [], [])))"
  using assms by (simp add: POST_def Let_def split: prod.splits)

lemma sorted_select_by_date: "sorted (map date (select_by_date table))"
  by (simp add: select_by_date_def)

lemma preview_loop_conv:
  "preview_loop z allSessions sessionIndex c items =
     map (\<lambda>(item, p).
            \<lparr>p_id = n_id item, oldWeek = week_number (oldData item),
             oldSession = session_number (oldData item),
             newWeek = fst p, newSession = snd p,
             p_session_type = session_type (oldData item),
             p_subject_name = subject_name (oldData item),
             oldDate = date (oldData item), oldDay = day (oldData item),
             p_newDate = n_newDate item, p_newDay = n_newDay item\<rparr>)
      (filter (\<lambda>(item, p). session_id (oldData item) = session_id (allSessions ! sessionIndex)
             \<or> gt_index (findIndex (\<lambda>s. session_id s = n_id item) allSessions) sessionIndex)
         (zip items (assign_from z c (map n_newDate items))))"
  by (induction items arbitrary: c) (simp_all add: Let_def)

lemma sorted_wrt_filter_zip_snd:
  assumes "sorted_wrt R ps" and "length xs = length ps"
  shows "sorted_wrt R (map snd (filter Q (zip xs ps)))"
proof -
  have "sorted_wrt R (map snd (zip xs ps))" using assms by simp
  then have "sorted_wrt (\<lambda>a b. R (snd a) (snd b)) (zip xs ps)" by (simp add: sorted_wrt_map)
  then have "sorted_wrt (\<lambda>a b. R (snd a) (snd b)) (filter Q (zip xs ps))" by (rule sorted_wrt_filter)
  then show ?thesis by (simp add: sorted_wrt_map)
qed

lemma sorted_wrt_filter_zip_fst:
  assumes "sorted_wrt R (map f xs)" and "length xs = length ps"
  shows "sorted_wrt R (map (f \<circ> fst) (filter Q (zip xs ps)))"
proof -
  have "map f xs = map (f \<circ> fst) (zip xs ps)" using assms(2) by (simp add: map_fst_zip flip: map_map)
  with assms(1) have "sorted_wrt (\<lambda>a b. R (f (fst a)) (f (fst b))) (zip xs ps)"
    by (simp add: sorted_wrt_map)
  then have "sorted_wrt (\<lambda>a b. R (f (fst a)) (f (fst b))) (filter Q (zip xs ps))" by (rule sorted_wrt_filter)
  then show ?thesis by (simp add: sorted_wrt_map)
qed

lemma date_only_mono: "date_only a \<le> date_only b \<longleftrightarrow> a \<le> b"
  by (simp add: date_only_def ms_per_day_def)

lemma sorted_allNewDates: "sorted (map n_newDate (allNewDates z allSessions sessionIndex new_date))"
proof -
  have "sorted (map (\<lambda>a. date_only (n_newDate a)) (allNewDates z allSessions sessionIndex new_date))"
    by (simp add: allNewDates_def)
  then show ?thesis by (simp add: sorted_wrt_map date_only_mono sorted_map)
qed

lemma preview_new_pairs_increasing:
  "sorted_wrt (<) (map new_pair (preview z allSessions sessionIndex new_date))"
proof (cases "allNewDates z allSessions sessionIndex new_date")
  case Nil
  then show ?thesis by (simp add: preview_def)
next
  case (Cons first rest)
  let ?items = "allNewDates z allSessions sessionIndex new_date"
  let ?c = "initial_counters (n_newDate first)"
  let ?Q = "\<lambda>(item, p :: int \<times> int). session_id (oldData item) = session_id (allSessions ! sessionIndex)
             \<or> gt_index (findIndex (\<lambda>s. session_id s = n_id item) allSessions) sessionIndex"
  have "map new_pair (preview z allSessions sessionIndex new_date)
        = map snd (filter ?Q (zip ?items (assign_from z ?c (map n_newDate ?items))))"
    by (simp add: preview_def Cons preview_loop_conv new_pair_def comp_def case_prod_unfold
             del: preview_loop.simps assign_from.simps)
  moreover have "sorted_wrt (<) (map snd (filter ?Q (zip ?items (assign_from z ?c (map n_newDate ?items)))))"
    by (rule sorted_wrt_filter_zip_snd[OF assign_from_increasing]) simp
  ultimately show ?thesis by simp
qed

lemma preview_dates_sorted:
  "sorted (map p_newDate (preview z allSessions sessionIndex new_date))"
proof (cases "allNewDates z allSessions sessionIndex new_date")
  case Nil
  then show ?thesis by (simp add: preview_def)
next
  case (Cons first rest)
  let ?items = "allNewDates z allSessions sessionIndex new_date"
  let ?c = "initial_counters (n_newDate first)"
  let ?Q = "\<lambda>(item, p :: int \<times> int). session_id (oldData item) = session_id (allSessions ! sessionIndex)
             \<or> gt_index (findIndex (\<lambda>s. session_id s = n_id item) allSessions) sessionIndex"
  have "map p_newDate (preview z allSessions sessionIndex new_date)
        = map (n_newDate \<circ> fst) (filter ?Q (zip ?items (assign_from z ?c (map n_newDate ?items))))"
    by (simp add: preview_def Cons preview_loop_conv comp_def case_prod_unfold
             del: preview_loop.simps assign_from.simps)
  moreover have "sorted (map (n_newDate \<circ> fst) (filter ?Q (zip ?items (assign_from z ?c (map n_newDate ?items)))))"
    by (rule sorted_wrt_filter_zip_fst[OF sorted_allNewDates]) simp
  ultimately show ?thesis by simp
qed

lemma GET_preview:
  assumes "GET e table q = \<lparr>g_status = st, g_body = Preview shifted n pattern rows\<rparr>"
  shows "\<exists>allSessions sessionIndex new_date.
           GET_checks e table q = Inr (allSessions, sessionIndex, new_date)
           \<and> rows = preview (zone e) allSessions sessionIndex new_date"
proof (cases "GET_checks e table q")
  case (Inl early)
  then have "g_body early \<noteq> Preview shifted n pattern rows"
    by (auto simp: GET_checks_def Let_def split: option.splits if_splits)
  with Inl assms show ?thesis by (simp add: GET_def)
next
  case (Inr v)
  with assms show ?thesis by (cases v) (auto simp: GET_def Let_def)
qed

text \<open>
  C6. The pairs assigned by the renumbering are strictly increasing in the
  lexicographic order along the list it walks, hence pairwise distinct, and each pair
  is the previous one with the session number increased by 1, or the next week with
  session number 1. The apply handler walks the table in ascending date order: after a
  reschedule whose renumbering updates were all stored, on a table with distinct ids,
  the stored pairs read in ascending date order are the assigned ones and strictly
  increasing. The rows of a preview z are in ascending order of their new dates and their
  new pairs are strictly increasing.
\<close>

theorem pairs_increase_with_date:
  "sorted_wrt (<) (assign z ds) \<and> distinct (assign z ds)
   \<and> (Suc i < length ds \<longrightarrow>
         assign z ds ! Suc i = (fst (assign z ds ! i), snd (assign z ds ! i) + 1)
         \<or> assign z ds ! Suc i = (fst (assign z ds ! i) + 1, 1))
   \<and> (POST_checks e table b = Inr v \<and> refetch_outcome e = FetchRows
        \<and> (\<forall>i. \<not> renumber_error e i) \<and> distinct (map session_id table) \<longrightarrow>
         sorted (map date (select_by_date (snd (POST e table b))))
         \<and> map stored_pair (select_by_date (snd (POST e table b)))
             = assign (zone e) (map date (select_by_date (snd (POST e table b))))
         \<and> sorted_wrt (<) (map stored_pair (select_by_date (snd (POST e table b)))))
   \<and> (GET e table q = \<lparr>g_status = st, g_body = Preview shifted n pattern rows\<rparr> \<longrightarrow>
         sorted (map p_newDate rows) \<and> sorted_wrt (<) (map new_pair rows))"
proof (intro conjI impI)
  show "sorted_wrt (<) (assign z ds)" by (rule assign_increasing)
  show "distinct (assign z ds)" by (rule assign_distinct)
next
  assume "Suc i < length ds"
  then show "assign z ds ! Suc i = (fst (assign z ds ! i), snd (assign z ds ! i) + 1)
         \<or> assign z ds ! Suc i = (fst (assign z ds ! i) + 1, 1)" by (rule assign_successor)
next
  assume h: "POST_checks e table b = Inr v \<and> refetch_outcome e = FetchRows
        \<and> (\<forall>i. \<not> renumber_error e i) \<and> distinct (map session_id table)"
  obtain allSessions sessionIndex new_date where v: "v = (allSessions, sessionIndex, new_date)"
    by (cases v) auto
  let ?dated = "fst (apply_updates (update_error e)
                       (build_updates (zone e) allSessions sessionIndex new_date) (table, [], []))"
  have tab: "snd (POST e table b) = renumber_pass e ?dated"
    using h v by (intro POST_table) simp
  have dist: "distinct (map session_id ?dated)"
    using h by (simp add: apply_updates_ids)
  show "sorted (map date (select_by_date (snd (POST e table b))))"
    by (rule sorted_select_by_date)
  show st: "map stored_pair (select_by_date (snd (POST e table b)))
             = assign (zone e) (map date (select_by_date (snd (POST e table b))))"
    unfolding tab using h dist by (intro renumber_pass_stored(1)) simp_all
  show "sorted_wrt (<) (map stored_pair (select_by_date (snd (POST e table b))))"
    unfolding st by (rule assign_increasing)
next
  assume g: "GET e table q = \<lparr>g_status = st, g_body = Preview shifted n pattern rows\<rparr>"
  from GET_preview[OF g] obtain allSessions sessionIndex new_date where
    rows: "rows = preview (zone e) allSessions sessionIndex new_date" by blast
  show "sorted (map p_newDate rows)" unfolding rows by (rule preview_dates_sorted)
  show "sorted_wrt (<) (map new_pair rows)" unfolding rows by (rule preview_new_pairs_increasing)
qed

text \<open>An instance: the example request and the example preview.\<close>

theorem pairs_increase_with_date_witness:
  "Suc 0 < length [20089, 20091, 20097 :: int]
   \<and> POST_checks example_env example_table example_request = Inr (example_table, 1, 20095)
   \<and> refetch_outcome example_env = FetchRows
   \<and> distinct (map session_id example_table)
   \<and> GET example_env example_table example_query
       = \<lparr>g_status = 200,
          g_body = Preview (2, 1, 2) 3 [''Monday'', ''Wednesday''] example_preview\<rparr>
   \<and> (assign utc [20089, 20091, 20097] ! Suc 0
         = (fst (assign utc [20089, 20091, 20097] ! 0), snd (assign utc [20089, 20091, 20097] ! 0) + 1)
       \<or> assign utc [20089, 20091, 20097] ! Suc 0 = (fst (assign utc [20089, 20091, 20097] ! 0) + 1, 1))
   \<and> sorted_wrt (<) (map stored_pair
         (select_by_date (snd (POST example_env example_table example_request))))
   \<and> sorted_wrt (<) (map new_pair example_preview)"
proof -
  have h1: "Suc 0 < length [20089, 20091, 20097 :: int]" by simp
  have h2: "POST_checks example_env example_table example_request = Inr (example_table, 1, 20095)"
    by code_simp
  have h3: "refetch_outcome example_env = FetchRows" "\<forall>i. \<not> renumber_error example_env i"
    by (simp_all add: example_env_def)
  have h4: "distinct (map session_id example_table)" by (simp add: example_table_def)
  have h5: "GET example_env example_table example_query
       = \<lparr>g_status = 200,
          g_body = Preview (2, 1, 2) 3 [''Monday'', ''Wednesday''] example_preview\<rparr>"
    by code_simp
  note t = pairs_increase_with_date[of utc "[20089, 20091, 20097]" 0 example_env example_table
             example_request "(example_table, 1, 20095)" example_query 200 "(2, 1, 2)" 3
             "[''Monday'', ''Wednesday'']" example_preview]
  from t h1 have c1: "assign utc [20089, 20091, 20097] ! Suc 0
         = (fst (assign utc [20089, 20091, 20097] ! 0), snd (assign utc [20089, 20091, 20097] ! 0) + 1)
       \<or> assign utc [20089, 20091, 20097] ! Suc 0 = (fst (assign utc [20089, 20091, 20097] ! 0) + 1, 1)"
    by blast
  from t h2 h3 h4 have c2: "sorted_wrt (<) (map stored_pair
         (select_by_date (snd (POST example_env example_table example_request))))"
    by blast
  from t h5 have c3: "sorted_wrt (<) (map new_pair example_preview)" by blast
  from h1 h2 h3 h4 h5 c1 c2 c3 show ?thesis by blast
qed

section \<open>Properties of the day-pattern detector\<close>

lemma js_Set_foldl:
  "foldl (\<lambda>acc x. if x \<in> set acc then acc else acc @ [x]) acc xs
     = acc @ first_seen (filter (\<lambda>x. x \<notin> set acc) xs)"
proof (induction xs arbitrary: acc)
  case Nil
  then show ?case by simp
next
  case (Cons x xs)
  show ?case
  proof (cases "x \<in> set acc")
    case True
    then show ?thesis by (simp add: Cons.IH)
  next
    case False
    have "filter (\<lambda>y. y \<notin> set (acc @ [x])) xs = filter (\<lambda>y. y \<noteq> x) (filter (\<lambda>y. y \<notin> set acc) xs)"
      by (induction xs) auto
    with False show ?thesis by (simp add: Cons.IH)
  qed
qed

lemma js_Set_first_seen: "js_Set xs = first_seen xs"
  by (simp add: js_Set_def js_Set_foldl)

lemma days_range: "map_of days d = Some i \<Longrightarrow> i \<in> {0..6}"
  by (auto simp: days_def split: if_splits)

lemma days_inj: "map_of days d = Some i \<Longrightarrow> map_of days d' = Some i \<Longrightarrow> d = d'"
  by (auto simp: days_def split: if_splits)

lemma days_empty [simp]: "map_of days [] = None"
  by (simp add: days_def)

lemma getDayIndex_mapped: "map_of days d = Some i \<Longrightarrow> getDayIndex d = JNum i"
  by (simp add: getDayIndex_def)

lemma getDayIndex_unmapped:
  "map_of days d = None \<Longrightarrow> d \<notin> set object_prototype_members \<Longrightarrow> getDayIndex d = JNum (-1)"
  by (simp add: getDayIndex_def)

lemma getDayIndex_inherited:
  "d \<in> set object_prototype_members \<Longrightarrow> getDayIndex d = JMember d"
  by (auto simp: getDayIndex_def object_prototype_members_def days_def)

lemma detected_conv:
  assumes "\<forall>d. Some d \<in> set names \<longrightarrow> d \<notin> set object_prototype_members"
  shows "filter (\<lambda>i. \<not> strict_eq i (JNum (-1))) (map getDayIndex (filter_Boolean names))
           = map JNum (concat (map day_indices names))"
  using assms
proof (induction names rule: filter_Boolean.induct)
  case 1
  then show ?case by simp
next
  case (2 ds)
  then show ?case by (simp add: day_indices_def)
next
  case (3 d ds)
  from 3(3) have rest: "\<forall>d. Some d \<in> set ds \<longrightarrow> d \<notin> set object_prototype_members"
    and own: "d \<notin> set object_prototype_members" by auto
  show ?case
  proof (cases "d = []")
    case True
    with 3(1)[OF True rest] show ?thesis by (simp add: day_indices_def)
  next
    case False
    note IH = 3(2)[OF False rest]
    show ?thesis
    proof (cases "map_of days d")
      case None
      from None own have "getDayIndex d = JNum (-1)" by (rule getDayIndex_unmapped)
      with None False IH show ?thesis by (simp add: day_indices_def)
    next
      case (Some i)
      then have "getDayIndex d = JNum i" by (rule getDayIndex_mapped)
      moreover from Some have "i \<noteq> -1" using days_range[of d i] by auto
      ultimately show ?thesis using Some False IH by (simp add: day_indices_def)
    qed
  qed
qed

lemma first_seen_subset: "set (first_seen xs) = set xs"
  by (induction xs rule: first_seen.induct) auto

lemma first_seen_distinct: "distinct (first_seen xs)"
  by (induction xs rule: first_seen.induct) (auto simp: first_seen_subset)

lemma dayPattern_refines:
  assumes "no_inherited_names sessions"
  shows "dayPattern sessions = map JNum (pattern_by_spec sessions)"
proof -
  let ?names = "first_seen (map day (filter (\<lambda>s. session_type s \<noteq> ''contest'') sessions))"
  have "\<forall>d. Some d \<in> set ?names \<longrightarrow> d \<notin> set object_prototype_members"
  proof (intro allI impI)
    fix d assume "Some d \<in> set ?names"
    then obtain s where s: "s \<in> set sessions" "session_type s \<noteq> ''contest''" "day s = Some d"
      by (auto simp: first_seen_subset)
    from assms s(1,2) have "case day s of None \<Rightarrow> True | Some d \<Rightarrow> d \<notin> set object_prototype_members"
      unfolding no_inherited_names_def by blast
    with s(3) show "d \<notin> set object_prototype_members" by simp
  qed
  then have "filter (\<lambda>i. \<not> strict_eq i (JNum (-1))) (map getDayIndex (filter_Boolean ?names))
           = map JNum (concat (map day_indices ?names))"
    by (rule detected_conv)
  then show ?thesis
    by (simp add: dayPattern_def pattern_by_spec_def uniqueDays_def Let_def js_Set_first_seen)
qed

lemma set_day_indices:
  "set (concat (map day_indices names)) = {i. \<exists>d. Some d \<in> set names \<and> map_of days d = Some i}"
  by (induction names) (auto simp: day_indices_def split: option.splits)

lemma distinct_day_indices:
  "distinct names \<Longrightarrow> distinct (concat (map day_indices names))"
proof (induction names)
  case Nil
  then show ?case by simp
next
  case (Cons name names)
  have "set (day_indices name) \<inter> set (concat (map day_indices names)) = {}"
  proof (rule ccontr)
    assume "set (day_indices name) \<inter> set (concat (map day_indices names)) \<noteq> {}"
    then obtain i where i: "i \<in> set (day_indices name)" "i \<in> set (concat (map day_indices names))"
      by blast
    from i(1) obtain d where d: "name = Some d" "map_of days d = Some i"
      by (auto simp: day_indices_def split: option.splits)
    from i(2) obtain d' where d': "Some d' \<in> set names" "map_of days d' = Some i"
      unfolding set_day_indices by blast
    from d(2) d'(2) have "d = d'" by (rule days_inj)
    with d(1) d'(1) Cons.prems show False by simp
  qed
  moreover have "distinct (day_indices name)"
    by (simp add: day_indices_def split: option.splits)
  ultimately show ?case using Cons by simp
qed

lemma pattern_by_spec_alt:
  "pattern_by_spec sessions =
     (let indices = concat (map day_indices
                       (first_seen (map day (filter (\<lambda>s. session_type s \<noteq> ''contest'') sessions))))
      in if indices = [] then [1, 3, 5] else indices)"
  by (simp add: pattern_by_spec_def Let_def)

lemma pattern_by_spec_weekdays:
  "pattern_by_spec sessions \<noteq> [] \<and> distinct (pattern_by_spec sessions)
   \<and> set (pattern_by_spec sessions) \<subseteq> {0..6}"
proof -
  let ?names = "first_seen (map day (filter (\<lambda>s. session_type s \<noteq> ''contest'') sessions))"
  let ?indices = "concat (map day_indices ?names)"
  have eq: "pattern_by_spec sessions = (if ?indices = [] then [1, 3, 5] else ?indices)"
    by (simp add: pattern_by_spec_alt Let_def)
  have d: "distinct ?indices" by (rule distinct_day_indices) (rule first_seen_distinct)
  have r: "set ?indices \<subseteq> {0..6}" unfolding set_day_indices using days_range by blast
  from eq d r show ?thesis by (auto split: if_splits)
qed

lemma dayPattern_not_empty: "dayPattern sessions \<noteq> []"
  by (simp add: dayPattern_def Let_def)

lemma dayPattern_without_contests:
  "dayPattern (filter (\<lambda>s. session_type s \<noteq> ''contest'') sessions) = dayPattern sessions"
  by (simp add: dayPattern_def uniqueDays_def)

text \<open>
  The detector does what its description says on every session list whose regular day
  values are free of inherited names: the result is the pattern of the description, as
  numbers, so it is not empty, has no repetition and holds weekday indices 0..6 only.
\<close>

lemma day_pattern_by_spec:
  assumes "no_inherited_names sessions"
  shows "dayPattern sessions = map JNum (pattern_by_spec sessions)
         \<and> dayPattern sessions \<noteq> [] \<and> distinct (dayPattern sessions)
         \<and> set (dayPattern sessions) \<subseteq> JNum ` {0..6}"
proof -
  note eq = dayPattern_refines[OF assms]
  from pattern_by_spec_weekdays[of sessions]
  have "distinct (pattern_by_spec sessions)" "set (pattern_by_spec sessions) \<subseteq> {0..6}"
    by blast+
  then have "distinct (map JNum (pattern_by_spec sessions))"
    "set (map JNum (pattern_by_spec sessions)) \<subseteq> JNum ` {0..6}"
    by (auto simp: distinct_map inj_on_def)
  with eq dayPattern_not_empty[of sessions] show ?thesis by simp
qed

lemma dayPattern_valid:
  assumes "no_inherited_names sessions"
  shows "\<exists>w\<in>{0..6}. JNum w \<in> set (dayPattern sessions)"
proof -
  from pattern_by_spec_weekdays[of sessions] obtain i where
    "i \<in> set (pattern_by_spec sessions)" "i \<in> {0..6}"
    by (cases "pattern_by_spec sessions") auto
  then show ?thesis unfolding dayPattern_refines[OF assms] by auto
qed

text \<open>
  C7. The description of the detector says that a day value which is no weekday name
  is dropped and that the result is a non-empty set of weekday indices. The code looks
  the day value up in an object literal, so a day value that names a member inherited
  from \<^verbatim>\<open>Object.prototype\<close> is not dropped: the lookup gives that member, which is
  neither nullish nor -1. For the schedule whose regular sessions carry the day value
  \<^verbatim>\<open>constructor\<close> the description gives the fallback Monday, Wednesday, Friday; the
  code's pattern holds the inherited member, is not empty, so that the fallback is not
  taken, and holds no weekday index.
\<close>

theorem day_pattern_inherited_name:
  "uniqueDays example_inherited_table = [''constructor'']
   \<and> getDayIndex ''constructor'' = JMember ''constructor''
   \<and> dayPattern example_inherited_table = [JMember ''constructor'']
   \<and> pattern_by_spec example_inherited_table = [1, 3, 5]
   \<and> dayPattern example_inherited_table \<noteq> map JNum (pattern_by_spec example_inherited_table)
   \<and> set (dayPattern example_inherited_table) \<inter> JNum ` {0..6} = {}"
proof -
  have u: "uniqueDays example_inherited_table = [''constructor'']" by code_simp
  have g: "getDayIndex ''constructor'' = JMember ''constructor''" by code_simp
  have d: "dayPattern example_inherited_table = [JMember ''constructor'']" by code_simp
  have p: "pattern_by_spec example_inherited_table = [1, 3, 5]" by code_simp
  have n: "dayPattern example_inherited_table \<noteq> map JNum (pattern_by_spec example_inherited_table)"
    by (simp only: d p) simp
  have e: "set (dayPattern example_inherited_table) \<inter> JNum ` {0..6} = {}"
    by (simp only: d) auto
  from u g d p n e show ?thesis by blast
qed

section \<open>Properties of the cascade\<close>

lemma findNextDay_hit:
  assumes "\<exists>w\<in>{0..6}. JNum w \<in> set targetDays"
  shows "\<exists>k. 1 \<le> k \<and> k \<le> 7 \<and> findNextDay fromDate targetDays = fromDate + k * ms_per_day
            \<and> JNum (getDay (findNextDay fromDate targetDays)) \<in> set targetDays"
proof -
  from findNextDay_scan[of fromDate targetDays] obtain k where k:
    "1 \<le> k" "k \<le> 8" "findNextDay fromDate targetDays = fromDate + k * ms_per_day"
    "\<forall>j. 1 \<le> j \<and> j < k \<longrightarrow> JNum (getDay (fromDate + j * ms_per_day)) \<notin> set targetDays"
    "k < 8 \<longrightarrow> JNum (getDay (fromDate + k * ms_per_day)) \<in> set targetDays"
    by blast
  from assms obtain w where w: "JNum w \<in> set targetDays" "w \<in> {0..6}" by blast
  from week_covers[OF w(2), of fromDate] obtain j where
    j: "1 \<le> j" "j \<le> 7" "getDay (fromDate + j * ms_per_day) = w" by blast
  have "k \<noteq> 8"
  proof
    assume "k = 8"
    with j have "1 \<le> j \<and> j < k" by simp
    with k(4) have "JNum (getDay (fromDate + j * ms_per_day)) \<notin> set targetDays" by blast
    with j(3) w(1) show False by simp
  qed
  with k show ?thesis by (intro exI[of _ k]) simp
qed

lemma findNextDay_from_noon:
  assumes "\<exists>w\<in>{0..6}. JNum w \<in> set targetDays"
  shows "\<exists>d'. d < d' \<and> d' \<le> d + 7 \<and> findNextDay (date_at_noon d) targetDays = date_at_noon d'
            \<and> JNum (weekday d') \<in> set targetDays"
proof -
  from findNextDay_hit[OF assms, of "date_at_noon d"] obtain k where k:
    "1 \<le> k" "k \<le> 7" "findNextDay (date_at_noon d) targetDays = date_at_noon d + k * ms_per_day"
    "JNum (getDay (findNextDay (date_at_noon d) targetDays)) \<in> set targetDays" by blast
  from k(3) have eq: "findNextDay (date_at_noon d) targetDays = date_at_noon (d + k)"
    by (simp add: noon_add_days)
  with k(4) have "JNum (weekday (d + k)) \<in> set targetDays" by (simp add: getDay_noon)
  with k eq show ?thesis by (intro exI[of _ "d + k"]) simp
qed

lemma cascade_entries:
  "cascade entry pattern currentDate sessions
     = map (\<lambda>(s, t). entry s t) (zip sessions (cascade (\<lambda>s t. t) pattern currentDate sessions))"
  by (induction sessions arbitrary: currentDate) (simp_all add: Let_def)

lemma length_cascade [simp]: "length (cascade entry pattern currentDate sessions) = length sessions"
  by (induction sessions arbitrary: currentDate) (simp_all add: Let_def)

lemma cascade_dates:
  assumes "\<exists>w\<in>{0..6}. JNum w \<in> set pattern"
  shows "\<exists>ds. cascade (\<lambda>s t. t) pattern (date_at_noon d) sessions = map date_at_noon ds
            \<and> sorted_wrt (<) (d # ds)
            \<and> list_all2 (\<lambda>s d'. weekday d' \<in> allowed_days pattern s) sessions ds"
proof (induction sessions arbitrary: d)
  case Nil
  then show ?case by simp
next
  case (Cons s rest)
  let ?targets = "if session_type s = ''contest''
                  then [JNum 1, JNum 2, JNum 3, JNum 4, JNum 5] else pattern"
  have valid: "\<exists>w\<in>{0..6}. JNum w \<in> set ?targets"
  proof (cases "session_type s = ''contest''")
    case True
    then show ?thesis by (intro bexI[of _ 1]) simp_all
  next
    case False
    with assms show ?thesis by simp
  qed
  from findNextDay_from_noon[OF valid, of d] obtain d' where d':
    "d < d'" "findNextDay (date_at_noon d) ?targets = date_at_noon d'"
    "JNum (weekday d') \<in> set ?targets" by blast
  from Cons.IH[of d'] obtain ds where ds:
    "cascade (\<lambda>s t. t) pattern (date_at_noon d') rest = map date_at_noon ds"
    "sorted_wrt (<) (d' # ds)"
    "list_all2 (\<lambda>s d'. weekday d' \<in> allowed_days pattern s) rest ds" by blast
  have step: "cascade (\<lambda>s t. t) pattern (date_at_noon d) (s # rest)
        = date_at_noon d' # cascade (\<lambda>s t. t) pattern (date_at_noon d') rest"
    using d'(2) by (simp add: Let_def split: if_splits)
  have "cascade (\<lambda>s t. t) pattern (date_at_noon d) (s # rest) = map date_at_noon (d' # ds)"
    by (simp only: step ds(1)) simp
  moreover have "sorted_wrt (<) (d # d' # ds)"
    using d'(1) ds(2) by auto
  moreover have "weekday d' \<in> allowed_days pattern s"
    using d'(3) by (auto simp: allowed_days_def split: if_splits)
  with ds(3) have "list_all2 (\<lambda>s d'. weekday d' \<in> allowed_days pattern s) (s # rest) (d' # ds)"
    by simp
  ultimately show ?case by blast
qed

lemma map_fst_zip_eq:
  "length xs = length ys \<Longrightarrow> map (\<lambda>p. f (fst p)) (zip xs ys) = map f xs"
  by (induction xs ys rule: list_induct2) simp_all

lemma map_snd_zip_eq:
  "length xs = length ys \<Longrightarrow> map (\<lambda>p. f (snd p)) (zip xs ys) = map f ys"
  by (induction xs ys rule: list_induct2) simp_all

text \<open>The preview handler computes the same ids, dates and day names as the apply handler.\<close>

lemma newDates_build_updates:
  "map (\<lambda>a. (n_id a, n_newDate a, n_newDay a)) (newDates z allSessions sessionIndex new_date)
     = map (\<lambda>u. (u_id u, u_date u, Some (u_day u))) (build_updates z allSessions sessionIndex new_date)"
  by (simp add: newDates_def build_updates_def Let_def cascade_entries[of "update_entry z"]
        cascade_entries[of "preview_entry z"] update_entry_def preview_entry_def comp_def
        case_prod_unfold)

text \<open>
  On a server whose zone keeps the date at noon, and for a session list whose regular
  day values are free of inherited names, the cascade does what its description says:
  the entries computed for the sessions after the shifted one are for exactly those
  sessions, in the original order; their dates are strictly increasing and the first
  is strictly after the new date of the shifted session; each date falls on a weekday
  of the detected pattern, or on Monday to Friday for a contest, and the day name of
  the entry is that of its date.
\<close>

lemma cascade_on_pattern:
  assumes zone: "keeps_date_at_noon z" and names: "no_inherited_names allSessions"
  shows "map u_id (tl (build_updates z allSessions sessionIndex new_date))
           = map session_id (drop (sessionIndex + 1) allSessions)
         \<and> sorted_wrt (<) (new_date # map u_date (tl (build_updates z allSessions sessionIndex new_date)))
         \<and> list_all2 (\<lambda>s u. weekday (u_date u) \<in> allowed_days (dayPattern allSessions) s
                             \<and> u_day u = day_names ! nat (weekday (u_date u)))
              (drop (sessionIndex + 1) allSessions)
              (tl (build_updates z allSessions sessionIndex new_date))"
proof -
  let ?rest = "drop (sessionIndex + 1) allSessions"
  let ?pat = "dayPattern allSessions"
  let ?ts = "cascade (\<lambda>s t. t) ?pat (date_at_noon new_date) ?rest"
  from cascade_dates[OF dayPattern_valid[OF names], of new_date ?rest] obtain ds where ds:
    "?ts = map date_at_noon ds" "sorted_wrt (<) (new_date # ds)"
    "list_all2 (\<lambda>s d'. weekday d' \<in> allowed_days ?pat s) ?rest ds" by blast
  have len: "length ds = length ?rest" using list_all2_lengthD[OF ds(3)] by simp
  have ts: "cascade (\<lambda>s t. t) ?pat (date_at_noon new_date) (drop (Suc sessionIndex) allSessions)
        = map date_at_noon ds" using ds(1) by simp
  have tl_eq: "tl (build_updates z allSessions sessionIndex new_date)
        = map (\<lambda>(s, d'). \<lparr>u_id = session_id s, u_date = d', u_day = getDayName (date_at_noon d')\<rparr>)
            (zip ?rest ds)"
    by (simp add: build_updates_def Let_def cascade_entries[of "update_entry z"] ts zip_map2
          update_entry_def case_prod_unfold comp_def toISODate_noon[OF zone])
  have ids: "map u_id (tl (build_updates z allSessions sessionIndex new_date)) = map session_id ?rest"
    unfolding tl_eq using len by (simp add: comp_def case_prod_unfold map_fst_zip_eq)
  have dates: "map u_date (tl (build_updates z allSessions sessionIndex new_date)) = ds"
    unfolding tl_eq using len map_snd_zip_eq[of "drop (sessionIndex + 1) allSessions" ds "\<lambda>d. d"]
    by (simp add: comp_def case_prod_unfold)
  have days: "list_all2 (\<lambda>s u. weekday (u_date u) \<in> allowed_days ?pat s
                       \<and> u_day u = day_names ! nat (weekday (u_date u)))
        ?rest (tl (build_updates z allSessions sessionIndex new_date))"
    unfolding tl_eq using ds(3) len
    by (auto simp: list_all2_conv_all_nth getDay_noon getDayName_def)
  from ids dates ds(2) days show ?thesis by simp
qed

text \<open>
  C3. The code does not keep the dates after the shifted session strictly increasing
  and on the pattern for every session list and request. Two slips are behind this.

  The first is the one of the day-pattern detector: a day value that names a member
  inherited from \<^verbatim>\<open>Object.prototype\<close> gives a pattern without any weekday, and the date
  projector then falls through to eight days on. Moving session 1 of the schedule
  with the day value \<^verbatim>\<open>constructor\<close> to Tuesday 2025-01-07 puts the two sessions after
  it on Wednesday 2025-01-15 (day 20103) and Thursday 2025-01-23 (day 20111), and
  Thursday is neither in the pattern computed by the code nor in the fallback
  Monday, Wednesday, Friday that the description gives for this schedule.

  The second is in the dates themselves: the cascade holds local noon, said to avoid
  time-zone issues, but the stored date is the UTC date of that instant. On a server
  13 hours east of UTC, local noon is 23:00 of the day before in UTC. Moving session 2
  of the example schedule to Tuesday 2025-01-07 (day 20095) there gives the contest the
  date 2025-01-07 again, with the day name Wednesday, so the dates are not strictly
  after the new date, and gives the last class Sunday 2025-01-12 (day 20100) with the
  day name Monday, while the pattern is Monday, Wednesday. The preview handler shows
  the same dates in both cases.
\<close>

theorem cascade_off_pattern:
  "fst (POST example_env example_inherited_table example_inherited_request)
     = \<lparr>status = 200,
        body = Shifted ''Successfully shifted class and rescheduled 2 subsequent classes'' 3
                 [\<lparr>u_id = 1, u_date = 20095, u_day = ''Tuesday''\<rparr>,
                  \<lparr>u_id = 2, u_date = 20103, u_day = ''Wednesday''\<rparr>,
                  \<lparr>u_id = 3, u_date = 20111, u_day = ''Thursday''\<rparr>]\<rparr>
   \<and> shown_dates (GET example_env example_inherited_table example_inherited_query)
       = [(1, 20095, Some ''Tuesday''), (2, 20103, Some ''Wednesday''),
          (3, 20111, Some ''Thursday'')]
   \<and> weekday 20111 = 4
   \<and> allowed_days (dayPattern example_inherited_table) (example_inherited_table ! 2) = {}
   \<and> pattern_by_spec example_inherited_table = [1, 3, 5]
   \<and> fst (POST example_east_env example_table example_request)
       = \<lparr>status = 200,
          body = Shifted ''Successfully shifted class and rescheduled 2 subsequent classes'' 3
                   [\<lparr>u_id = 2, u_date = 20095, u_day = ''Tuesday''\<rparr>,
                    \<lparr>u_id = 3, u_date = 20095, u_day = ''Wednesday''\<rparr>,
                    \<lparr>u_id = 4, u_date = 20100, u_day = ''Monday''\<rparr>]\<rparr>
   \<and> shown_dates (GET example_east_env example_table example_query)
       = [(2, 20095, Some ''Tuesday''), (3, 20095, Some ''Wednesday''),
          (4, 20100, Some ''Monday'')]
   \<and> weekday 20100 = 0
   \<and> dayPattern example_table = [JNum 1, JNum 3]
   \<and> allowed_days (dayPattern example_table) (example_table ! 3) = {1, 3}"
proof -
  have a1: "fst (POST example_env example_inherited_table example_inherited_request)
     = \<lparr>status = 200,
        body = Shifted ''Successfully shifted class and rescheduled 2 subsequent classes'' 3
                 [\<lparr>u_id = 1, u_date = 20095, u_day = ''Tuesday''\<rparr>,
                  \<lparr>u_id = 2, u_date = 20103, u_day = ''Wednesday''\<rparr>,
                  \<lparr>u_id = 3, u_date = 20111, u_day = ''Thursday''\<rparr>]\<rparr>"
    by code_simp
  have a2: "shown_dates (GET example_env example_inherited_table example_inherited_query)
       = [(1, 20095, Some ''Tuesday''), (2, 20103, Some ''Wednesday''),
          (3, 20111, Some ''Thursday'')]"
    by code_simp
  have a3: "weekday 20111 = 4" "weekday 20100 = 0" by (simp_all add: weekday_def)
  have d1: "dayPattern example_inherited_table = [JMember ''constructor'']" by code_simp
  have t1: "session_type (example_inherited_table ! 2) \<noteq> ''contest''"
    by (simp add: example_inherited_table_def)
  have a4: "allowed_days (dayPattern example_inherited_table) (example_inherited_table ! 2) = {}"
    using t1 by (simp add: allowed_days_def d1)
  have a5: "pattern_by_spec example_inherited_table = [1, 3, 5]" by code_simp
  have b1: "fst (POST example_east_env example_table example_request)
       = \<lparr>status = 200,
          body = Shifted ''Successfully shifted class and rescheduled 2 subsequent classes'' 3
                   [\<lparr>u_id = 2, u_date = 20095, u_day = ''Tuesday''\<rparr>,
                    \<lparr>u_id = 3, u_date = 20095, u_day = ''Wednesday''\<rparr>,
                    \<lparr>u_id = 4, u_date = 20100, u_day = ''Monday''\<rparr>]\<rparr>"
    by code_simp
  have b2: "shown_dates (GET example_east_env example_table example_query)
       = [(2, 20095, Some ''Tuesday''), (3, 20095, Some ''Wednesday''),
          (4, 20100, Some ''Monday'')]"
    by code_simp
  have d2: "dayPattern example_table = [JNum 1, JNum 3]" by code_simp
  have t2: "session_type (example_table ! 3) \<noteq> ''contest''"
    by (simp add: example_table_def)
  have b3: "allowed_days (dayPattern example_table) (example_table ! 3) = {1, 3}"
    using t2 by (auto simp: allowed_days_def d2)
  from a1 a2 a3 a4 a5 b1 b2 d2 b3 show ?thesis by blast
qed

section \<open>Properties of the apply handler\<close>

lemma apply_updates_result:
  "apply_updates err us (table, errors, ok)
     = (foldl store_update table (succeeded err us), errors @ error_lines err us,
        ok @ map u_id (succeeded err us))"
  by (induction us arbitrary: table errors ok)
     (auto simp: store_update_def error_lines_def succeeded_def split: option.splits)

lemma length_error_lines:
  "length (error_lines err us) = length (filter (\<lambda>u. err (u_id u) \<noteq> None) us)"
  by (induction us) (auto simp: error_lines_def split: option.splits)

lemma error_lines_empty_iff:
  "error_lines err us = [] \<longleftrightarrow> (\<forall>u\<in>set us. err (u_id u) = None)"
  by (induction us) (auto simp: error_lines_def split: option.splits)

lemma POST_body:
  assumes "POST_checks e table b = Inr (allSessions, sessionIndex, new_date)"
  shows "POST e table b =
     (let updates = build_updates (zone e) allSessions sessionIndex new_date;
          ok = succeeded (update_error e) updates;
          errors = error_lines (update_error e) updates;
          table'' = renumber_pass e (foldl store_update table ok)
      in if errors \<noteq> [] then
           (\<lparr>status = 207,
             body = Partial (''Partially updated. '' @ show_nat (length ok)
                             @ '' succeeded, '' @ show_nat (length errors) @ '' failed.'')
                      (length ok) errors\<rparr>, table'')
         else
           (\<lparr>status = 200,
             body = Shifted (''Successfully shifted class and rescheduled ''
                             @ show_nat (length updates - 1) @ '' subsequent classes'')
                      (length updates) updates\<rparr>, table''))"
  using assms by (simp add: POST_def Let_def apply_updates_result)

lemma findIndex_Some:
  "findIndex P xs = Some i \<Longrightarrow> i < length xs \<and> P (xs ! i) \<and> (\<forall>j<i. \<not> P (xs ! j))"
proof (induction xs arbitrary: i)
  case Nil
  then show ?case by simp
next
  case (Cons x xs)
  show ?case
  proof (cases "P x")
    case True
    with Cons.prems show ?thesis by simp
  next
    case False
    with Cons.prems obtain i' where i': "findIndex P xs = Some i'" "i = Suc i'" by auto
    from Cons.IH[OF i'(1)] False i'(2) show ?thesis by (auto simp: nth_Cons split: nat.splits)
  qed
qed

lemma findIndex_None: "findIndex P xs = None \<longleftrightarrow> (\<forall>x\<in>set xs. \<not> P x)"
  by (induction xs) auto

lemma POST_checks_Inr:
  assumes "POST_checks e table b = Inr (allSessions, sessionIndex, new_date)"
  shows "newDate b = Some new_date" "truthy (tableName b)" "truthy (sessionId b)"
    "fetch_outcome e = FetchRows" "allSessions = select_by_week table"
    "findIndex (\<lambda>s. strict_eq (JNum (session_id s)) (sessionId b)) allSessions = Some sessionIndex"
    "date (allSessions ! sessionIndex) \<noteq> new_date"
    "getTime (zone e) (setHours_zero (now e)) < getTime (zone e) (date_at_noon new_date)"
  using assms
  by (auto simp: POST_checks_def Let_def split: option.splits if_splits)

lemma store_renumbering_untouched:
  "map untouched (store_renumbering err us table) = map untouched table"
  by (induction err us table rule: store_renumbering.induct)
     (simp_all add: update_week_session_def untouched_def comp_def)

lemma renumber_pass_untouched: "map untouched (renumber_pass e table) = map untouched table"
  by (simp add: renumber_pass_def renumber_fetched_def store_renumbering_untouched)

lemma store_update_ids [simp]: "map session_id (store_update table u) = map session_id table"
  by (simp add: store_update_def)

lemma foldl_store_update_ids [simp]:
  "map session_id (foldl store_update table us) = map session_id table"
  by (induction us arbitrary: table) simp_all

lemma stored_updates_applied:
  assumes "distinct (map u_id us)" and "u \<in> set us"
    and "s \<in> set (foldl store_update table us)" and "session_id s = u_id u"
  shows "date s = u_date u \<and> day s = Some (u_day u)"
  using assms
proof (induction us arbitrary: s rule: rev_induct)
  case Nil
  then show ?case by simp
next
  case (snoc u' us)
  let ?T = "foldl store_update table us"
  have "foldl store_update table (us @ [u']) = store_update ?T u'" by simp
  also have "\<dots> = map (\<lambda>s0. if session_id s0 = u_id u'
                              then s0\<lparr>date := u_date u', day := Some (u_day u')\<rparr> else s0) ?T"
    by (simp only: store_update_def update_date_day_def)
  finally have "s \<in> (\<lambda>s0. if session_id s0 = u_id u'
                       then s0\<lparr>date := u_date u', day := Some (u_day u')\<rparr> else s0) ` set ?T"
    using snoc.prems(3) by (simp only: set_map)
  then obtain s0 where s0: "s0 \<in> set ?T"
    "s = (if session_id s0 = u_id u' then s0\<lparr>date := u_date u', day := Some (u_day u')\<rparr> else s0)"
    by blast
  then have id0: "session_id s0 = session_id s" by (simp split: if_splits)
  show ?case
  proof (cases "u = u'")
    case True
    with s0(2) id0 snoc.prems(4) show ?thesis by simp
  next
    case False
    with snoc.prems(2) have u: "u \<in> set us" by simp
    with snoc.prems(1) have "u_id u \<noteq> u_id u'" by (auto simp: image_iff)
    with s0(2) id0 snoc.prems(4) have "s = s0" by simp
    with s0(1) snoc.prems(1,4) u snoc.IH[of s] show ?thesis by simp
  qed
qed

lemma set_select_by_week [simp]: "set (select_by_week table) = set table"
  by (simp add: select_by_week_def)

lemma distinct_select_by_week:
  "distinct (map session_id table) \<Longrightarrow> distinct (map session_id (select_by_week table))"
  by (simp add: select_by_week_def distinct_map)

lemma build_updates_ids:
  "sessionIndex < length allSessions \<Longrightarrow>
   map u_id (build_updates z allSessions sessionIndex new_date)
     = map session_id (drop sessionIndex allSessions)"
proof -
  assume i: "sessionIndex < length allSessions"
  have "map u_id (cascade (update_entry z) pattern cur ss) = map session_id ss" for pattern cur ss
    by (induction ss arbitrary: cur) (simp_all add: Let_def update_entry_def)
  then show ?thesis using i
    by (simp add: build_updates_def Let_def flip: Cons_nth_drop_Suc)
qed

lemma build_updates_distinct:
  assumes "POST_checks e table b = Inr (allSessions, sessionIndex, new_date)"
    and "distinct (map session_id table)"
  shows "distinct (map u_id (build_updates (zone e) allSessions sessionIndex new_date))"
proof -
  from POST_checks_Inr(5,6)[OF assms(1)] findIndex_Some
  have i: "sessionIndex < length allSessions" and a: "allSessions = select_by_week table" by blast+
  from a assms(2) have "distinct (map session_id allSessions)"
    by (simp add: distinct_select_by_week)
  then have "distinct (map session_id (drop sessionIndex allSessions))"
    by (simp add: distinct_drop flip: drop_map)
  with i show ?thesis by (simp add: build_updates_ids)
qed

lemma untouched_row:
  assumes "map untouched T' = map untouched T" and "s \<in> set T'"
  shows "\<exists>s1\<in>set T. untouched s1 = untouched s"
proof -
  from assms(2) have "untouched s \<in> set (map untouched T')" by simp
  with assms(1) have "untouched s \<in> set (map untouched T)" by simp
  then show ?thesis by auto
qed

text \<open>
  C8. In apply mode a failed date/day update does not stop the batch. When the request
  passes the checks and at least one update fails, every update is still attempted
  (each either succeeds or leaves an error line), the response is HTTP 207 with
  success false (the \<open>Partial\<close> body), the message, the count of succeeded updates and
  the error lines, one per failed id. The table left behind is the table with all the
  succeeded updates stored, after the renumbering pass: nothing is rolled back, and
  with distinct ids every row of a succeeded update carries its new date and day.
\<close>

theorem partial_failure_reported:
  "POST_checks e table b = Inr (allSessions, sessionIndex, new_date)
   \<and> (\<exists>u\<in>set (build_updates (zone e) allSessions sessionIndex new_date). update_error e (u_id u) \<noteq> None)
   \<longrightarrow>
   (let updates = build_updates (zone e) allSessions sessionIndex new_date;
        ok = succeeded (update_error e) updates;
        errors = error_lines (update_error e) updates
    in fst (POST e table b)
         = \<lparr>status = 207,
            body = Partial (''Partially updated. '' @ show_nat (length ok)
                            @ '' succeeded, '' @ show_nat (length errors) @ '' failed.'')
                     (length ok) errors\<rparr>
       \<and> length ok + length errors = length updates
       \<and> snd (POST e table b) = renumber_pass e (foldl store_update table ok)
       \<and> (distinct (map session_id table) \<longrightarrow>
            (\<forall>u\<in>set ok. \<forall>s\<in>set (snd (POST e table b)).
               session_id s = u_id u \<longrightarrow> date s = u_date u \<and> day s = Some (u_day u))))"
proof (intro impI)
  assume h: "POST_checks e table b = Inr (allSessions, sessionIndex, new_date)
   \<and> (\<exists>u\<in>set (build_updates (zone e) allSessions sessionIndex new_date). update_error e (u_id u) \<noteq> None)"
  let ?updates = "build_updates (zone e) allSessions sessionIndex new_date"
  let ?ok = "succeeded (update_error e) ?updates"
  let ?errors = "error_lines (update_error e) ?updates"
  from h have checks: "POST_checks e table b = Inr (allSessions, sessionIndex, new_date)" by simp
  from h have errs: "?errors \<noteq> []" by (auto simp: error_lines_empty_iff)
  have post: "POST e table b
        = (\<lparr>status = 207,
             body = Partial (''Partially updated. '' @ show_nat (length ?ok)
                             @ '' succeeded, '' @ show_nat (length ?errors) @ '' failed.'')
                      (length ?ok) ?errors\<rparr>,
           renumber_pass e (foldl store_update table ?ok))"
    using errs by (simp add: POST_body[OF checks] Let_def)
  have count: "length ?ok + length ?errors = length ?updates"
    using sum_length_filter_compl[of "\<lambda>u. update_error e (u_id u) = None" ?updates]
    by (simp only: length_error_lines succeeded_def)
  have applied: "date s = u_date u \<and> day s = Some (u_day u)"
    if d: "distinct (map session_id table)" and u: "u \<in> set ?ok"
      and s: "s \<in> set (snd (POST e table b))" and i: "session_id s = u_id u" for u s
  proof -
    from s post have "s \<in> set (renumber_pass e (foldl store_update table ?ok))" by simp
    from untouched_row[OF renumber_pass_untouched this] obtain s1 where
      s1: "s1 \<in> set (foldl store_update table ?ok)" "untouched s1 = untouched s" by blast
    have "distinct (map u_id ?ok)"
      using build_updates_distinct[OF checks d] by (simp add: succeeded_def distinct_map_filter)
    from stored_updates_applied[OF this u s1(1)] s1(2) i show ?thesis
      by (simp add: untouched_def)
  qed
  from post count applied show "let updates = build_updates (zone e) allSessions sessionIndex new_date;
        ok = succeeded (update_error e) updates;
        errors = error_lines (update_error e) updates
    in fst (POST e table b)
         = \<lparr>status = 207,
            body = Partial (''Partially updated. '' @ show_nat (length ok)
                            @ '' succeeded, '' @ show_nat (length errors) @ '' failed.'')
                     (length ok) errors\<rparr>
       \<and> length ok + length errors = length updates
       \<and> snd (POST e table b) = renumber_pass e (foldl store_update table ok)
       \<and> (distinct (map session_id table) \<longrightarrow>
            (\<forall>u\<in>set ok. \<forall>s\<in>set (snd (POST e table b)).
               session_id s = u_id u \<longrightarrow> date s = u_date u \<and> day s = Some (u_day u)))"
    unfolding Let_def by (intro conjI impI ballI) simp_all
qed

text \<open>
  An instance: of the three updates of the example request, the one of session 3 fails.
\<close>

theorem partial_failure_reported_witness:
  "POST_checks example_failing_env example_table example_request = Inr (example_table, 1, 20095)
   \<and> update_error example_failing_env 3 = Some ''timeout''
   \<and> distinct (map session_id example_table)
   \<and> fst (POST example_failing_env example_table example_request)
       = \<lparr>status = 207,
          body = Partial ''Partially updated. 2 succeeded, 1 failed.'' 2 [''Session 3: timeout'']\<rparr>
   \<and> snd (POST example_failing_env example_table example_request)
       = renumber_pass example_failing_env
           (foldl store_update example_table
              [\<lparr>u_id = 2, u_date = 20095, u_day = ''Tuesday''\<rparr>,
               \<lparr>u_id = 4, u_date = 20101, u_day = ''Monday''\<rparr>])"
proof -
  let ?updates = "build_updates (zone example_failing_env) example_table 1 20095"
  have h1: "POST_checks example_failing_env example_table example_request
              = Inr (example_table, 1, 20095)"
    by code_simp
  have h2: "\<exists>u\<in>set ?updates. update_error example_failing_env (u_id u) \<noteq> None"
    by code_simp
  have h3: "update_error example_failing_env 3 = Some ''timeout''"
    by (simp add: example_failing_env_def)
  have h4: "distinct (map session_id example_table)" by (simp add: example_table_def)
  have ok: "succeeded (update_error example_failing_env) ?updates
              = [\<lparr>u_id = 2, u_date = 20095, u_day = ''Tuesday''\<rparr>,
                 \<lparr>u_id = 4, u_date = 20101, u_day = ''Monday''\<rparr>]"
    by code_simp
  have errors: "error_lines (update_error example_failing_env) ?updates = [''Session 3: timeout'']"
    by code_simp
  have digits: "show_nat (Suc (Suc 0)) = ''2''" "show_nat (Suc 0) = ''1''" by code_simp+
  note t = partial_failure_reported[of example_failing_env example_table example_request
             example_table 1 20095, unfolded Let_def]
  from t h1 h2 have c1: "fst (POST example_failing_env example_table example_request)
       = \<lparr>status = 207,
          body = Partial (''Partially updated. ''
                          @ show_nat (length (succeeded (update_error example_failing_env) ?updates))
                          @ '' succeeded, ''
                          @ show_nat (length (error_lines (update_error example_failing_env) ?updates))
                          @ '' failed.'')
                   (length (succeeded (update_error example_failing_env) ?updates))
                   (error_lines (update_error example_failing_env) ?updates)\<rparr>"
    by blast
  from t h1 h2 have c2: "snd (POST example_failing_env example_table example_request)
       = renumber_pass example_failing_env
           (foldl store_update example_table (succeeded (update_error example_failing_env) ?updates))"
    by blast
  from c1 have c1': "fst (POST example_failing_env example_table example_request)
       = \<lparr>status = 207,
          body = Partial ''Partially updated. 2 succeeded, 1 failed.'' 2 [''Session 3: timeout'']\<rparr>"
    by (simp only: ok errors) (simp add: digits)
  from c2 have c2': "snd (POST example_failing_env example_table example_request)
       = renumber_pass example_failing_env
           (foldl store_update example_table
              [\<lparr>u_id = 2, u_date = 20095, u_day = ''Tuesday''\<rparr>,
               \<lparr>u_id = 4, u_date = 20101, u_day = ''Monday''\<rparr>])"
    by (simp only: ok)
  from h1 h3 h4 c1' c2' show ?thesis by blast
qed

lemma stored_pair_store_update [simp]:
  "map stored_pair (store_update table u) = map stored_pair table"
  by (simp add: store_update_def update_date_day_def stored_pair_def comp_def)

lemma stored_pair_foldl_store_update [simp]:
  "map stored_pair (foldl store_update table us) = map stored_pair table"
  by (induction us arbitrary: table) simp_all

lemma succeeded_all: "(\<forall>u\<in>set us. err (u_id u) = None) \<Longrightarrow> succeeded err us = us"
  by (simp add: succeeded_def)

lemma POST_checks_refetch [simp]:
  "POST_checks (e\<lparr>refetch_outcome := x\<rparr>) table b = POST_checks e table b"
  by (simp add: POST_checks_def Let_def split: option.splits)

lemma renumber_pass_skipped:
  "refetch_outcome e \<noteq> FetchRows \<Longrightarrow> renumber_pass e table = table"
  by (simp add: renumber_pass_def renumber_fetched_def)

text \<open>
  C9. In apply mode, when the request passes the checks, every date/day update succeeds
  and the re-fetch does not return rows, the renumbering is skipped altogether: the
  table left behind is the table with the date/day updates stored and every stored
  week and session number as before. The response is the success response, HTTP 200
  with the update list, and it is the very response given when the re-fetch succeeds,
  so nothing in it tells that the renumbering did not run. The renumbering step also
  does nothing when the re-fetch returns an empty list.
\<close>

theorem failed_refetch_skips_renumbering:
  "(POST_checks e table b = Inr (allSessions, sessionIndex, new_date)
    \<and> (\<forall>u\<in>set (build_updates (zone e) allSessions sessionIndex new_date). update_error e (u_id u) = None)
    \<and> refetch_outcome e \<noteq> FetchRows
    \<longrightarrow>
    fst (POST e table b)
      = \<lparr>status = 200,
         body = Shifted (''Successfully shifted class and rescheduled ''
                         @ show_nat (length (build_updates (zone e) allSessions sessionIndex new_date) - 1)
                         @ '' subsequent classes'')
                  (length (build_updates (zone e) allSessions sessionIndex new_date))
                  (build_updates (zone e) allSessions sessionIndex new_date)\<rparr>
    \<and> snd (POST e table b)
        = foldl store_update table (build_updates (zone e) allSessions sessionIndex new_date)
    \<and> map stored_pair (snd (POST e table b)) = map stored_pair table
    \<and> fst (POST e table b) = fst (POST (e\<lparr>refetch_outcome := FetchRows\<rparr>) table b))
   \<and> renumber_fetched z outcome err [] table = table
   \<and> (outcome \<noteq> FetchRows \<longrightarrow> renumber_fetched z outcome err updatedSessions table = table)"
proof (intro conjI impI)
  show "renumber_fetched z outcome err [] table = table" by (simp add: renumber_fetched_def)
  show "renumber_fetched z outcome err updatedSessions table = table" if "outcome \<noteq> FetchRows"
    using that by (simp add: renumber_fetched_def)
next
  assume h: "POST_checks e table b = Inr (allSessions, sessionIndex, new_date)
    \<and> (\<forall>u\<in>set (build_updates (zone e) allSessions sessionIndex new_date). update_error e (u_id u) = None)
    \<and> refetch_outcome e \<noteq> FetchRows"
  let ?us = "build_updates (zone e) allSessions sessionIndex new_date"
  from h have checks: "POST_checks e table b = Inr (allSessions, sessionIndex, new_date)" by simp
  from h have ok: "succeeded (update_error e) ?us = ?us" by (simp add: succeeded_all)
  from h have noerr: "error_lines (update_error e) ?us = []" by (simp add: error_lines_empty_iff)
  from h have skip: "renumber_pass e (foldl store_update table ?us) = foldl store_update table ?us"
    by (simp add: renumber_pass_skipped)
  have post: "POST e table b
      = (\<lparr>status = 200,
          body = Shifted (''Successfully shifted class and rescheduled ''
                          @ show_nat (length ?us - 1) @ '' subsequent classes'')
                   (length ?us) ?us\<rparr>,
         foldl store_update table ?us)"
    by (simp add: POST_body[OF checks] Let_def ok noerr skip)
  show "fst (POST e table b)
      = \<lparr>status = 200,
         body = Shifted (''Successfully shifted class and rescheduled ''
                         @ show_nat (length ?us - 1) @ '' subsequent classes'')
                  (length ?us) ?us\<rparr>"
    by (simp add: post)
  show "snd (POST e table b) = foldl store_update table ?us" by (simp add: post)
  show "map stored_pair (snd (POST e table b)) = map stored_pair table" by (simp add: post)
  have checks': "POST_checks (e\<lparr>refetch_outcome := FetchRows\<rparr>) table b
                   = Inr (allSessions, sessionIndex, new_date)"
    using checks by simp
  show "fst (POST e table b) = fst (POST (e\<lparr>refetch_outcome := FetchRows\<rparr>) table b)"
    by (simp add: post POST_body[OF checks'] Let_def ok noerr)
qed

text \<open>
  An instance: after the example request with a failing re-fetch, the stored pairs read
  in date order are still (1,1), (1,2), (2,1), (2,2), where the renumbering would have
  assigned (1,1), (1,2), (1,3), (2,1).
\<close>

theorem failed_refetch_skips_renumbering_witness:
  "POST_checks example_refetch_failing_env example_table example_request
     = Inr (example_table, 1, 20095)
   \<and> refetch_outcome example_refetch_failing_env \<noteq> FetchRows
   \<and> fst (POST example_refetch_failing_env example_table example_request)
       = fst (POST (example_refetch_failing_env\<lparr>refetch_outcome := FetchRows\<rparr>)
                example_table example_request)
   \<and> status (fst (POST example_refetch_failing_env example_table example_request)) = 200
   \<and> map stored_pair (snd (POST example_refetch_failing_env example_table example_request))
       = map stored_pair example_table
   \<and> map stored_pair (select_by_date
         (snd (POST example_refetch_failing_env example_table example_request)))
       = [(1, 1), (1, 2), (2, 1), (2, 2)]
   \<and> assign (zone example_refetch_failing_env) (map date (select_by_date
         (snd (POST example_refetch_failing_env example_table example_request))))
       = [(1, 1), (1, 2), (1, 3), (2, 1)]"
proof -
  have h1: "POST_checks example_refetch_failing_env example_table example_request
              = Inr (example_table, 1, 20095)"
    by code_simp
  have h2: "\<forall>u\<in>set (build_updates (zone example_refetch_failing_env) example_table 1 20095).
              update_error example_refetch_failing_env (u_id u) = None"
    by (simp add: example_refetch_failing_env_def example_env_def)
  have h3: "refetch_outcome example_refetch_failing_env \<noteq> FetchRows"
    by (simp add: example_refetch_failing_env_def)
  note t = failed_refetch_skips_renumbering[of example_refetch_failing_env example_table
             example_request example_table 1 20095]
  from t h1 h2 h3 have c1: "fst (POST example_refetch_failing_env example_table example_request)
       = fst (POST (example_refetch_failing_env\<lparr>refetch_outcome := FetchRows\<rparr>)
                example_table example_request)"
    by blast
  from t h1 h2 h3 have c2:
    "map stored_pair (snd (POST example_refetch_failing_env example_table example_request))
       = map stored_pair example_table"
    by blast
  from t h1 h2 h3 have "fst (POST example_refetch_failing_env example_table example_request)
      = \<lparr>status = 200,
         body = Shifted (''Successfully shifted class and rescheduled ''
                         @ show_nat (length (build_updates (zone example_refetch_failing_env) example_table 1 20095) - 1)
                         @ '' subsequent classes'')
                  (length (build_updates (zone example_refetch_failing_env) example_table 1 20095))
                  (build_updates (zone example_refetch_failing_env) example_table 1 20095)\<rparr>"
    by blast
  then have c3: "status (fst (POST example_refetch_failing_env example_table example_request)) = 200"
    by simp
  have c4: "map stored_pair (select_by_date
         (snd (POST example_refetch_failing_env example_table example_request)))
       = [(1, 1), (1, 2), (2, 1), (2, 2)]"
    by code_simp
  have c5: "assign (zone example_refetch_failing_env) (map date (select_by_date
         (snd (POST example_refetch_failing_env example_table example_request))))
       = [(1, 1), (1, 2), (1, 3), (2, 1)]"
    by code_simp
  from h1 h3 c1 c2 c3 c4 c5 show ?thesis by blast
qed

section \<open>The session lookup\<close>

lemma GET_checks_status:
  "GET_checks e table q = Inl early \<Longrightarrow> GET e table q = early"
  "GET_checks e table q = Inr v \<Longrightarrow> g_status (GET e table q) = 200"
  by (auto simp: GET_def Let_def split: prod.splits)

text \<open>
  C10, as the code has it. The apply handler compares the request's \<^verbatim>\<open>sessionId\<close> with
  the stored ids by strict equality, without conversion, so a string is never found,
  whatever it spells. But two checks come before the lookup. For every request whose
  \<^verbatim>\<open>sessionId\<close> is a string the response is: 400 \<^verbatim>\<open>Missing required fields\<close> when
  \<^verbatim>\<open>newDate\<close> or \<^verbatim>\<open>tableName\<close> is missing or the string is empty; otherwise 500
  \<^verbatim>\<open>Failed to fetch sessions\<close> when the fetch fails; otherwise 404
  \<^verbatim>\<open>Session not found\<close>. In all three cases the table is untouched. The preview
  handler compares the stored ids with \<^verbatim>\<open>parseInt\<close> of its parameter: for a query
  that passes the required-params check and whose sessions are fetched, the response
  is 404 \<^verbatim>\<open>Session not found\<close> exactly when no stored id equals the number parsed.
\<close>

theorem string_id_not_found:
  "(sessionId b = JStr sid \<longrightarrow>
      POST e table b =
        (if newDate b = None \<or> \<not> truthy (tableName b) \<or> sid = []
         then (\<lparr>status = 400,
                 body = Error ''Missing required fields: tableName, sessionId, newDate''\<rparr>, table)
         else if fetch_outcome e \<noteq> FetchRows
         then (\<lparr>status = 500, body = Error ''Failed to fetch sessions''\<rparr>, table)
         else (\<lparr>status = 404, body = Error ''Session not found''\<rparr>, table)))
   \<and> (q_tableName q = Some tn \<and> tn \<noteq> [] \<and> q_sessionId q = Some sid' \<and> sid' \<noteq> []
       \<and> q_newDate q = Some d' \<and> fetch_outcome e = FetchRows
       \<longrightarrow> (g_status (GET e table q) = 404)
             = (\<forall>s\<in>set table. parseInt sid' \<noteq> Finite (session_id s))
          \<and> (GET e table q = \<lparr>g_status = 404, g_body = GetError ''Session not found''\<rparr>)
             = (\<forall>s\<in>set table. parseInt sid' \<noteq> Finite (session_id s)))"
proof (intro conjI impI)
  assume h: "sessionId b = JStr sid"
  have none: "findIndex (\<lambda>s. strict_eq (JNum (session_id s)) (JStr sid)) (select_by_week table) = None"
    by (simp add: findIndex_None)
  show "POST e table b =
        (if newDate b = None \<or> \<not> truthy (tableName b) \<or> sid = []
         then (\<lparr>status = 400,
                 body = Error ''Missing required fields: tableName, sessionId, newDate''\<rparr>, table)
         else if fetch_outcome e \<noteq> FetchRows
         then (\<lparr>status = 500, body = Error ''Failed to fetch sessions''\<rparr>, table)
         else (\<lparr>status = 404, body = Error ''Session not found''\<rparr>, table))"
  proof (cases "newDate b")
    case None
    then show ?thesis by (simp add: POST_def POST_checks_def)
  next
    case (Some new_date)
    with h none show ?thesis by (simp add: POST_def POST_checks_def Let_def)
  qed
next
  assume h: "q_tableName q = Some tn \<and> tn \<noteq> [] \<and> q_sessionId q = Some sid' \<and> sid' \<noteq> []
       \<and> q_newDate q = Some d' \<and> fetch_outcome e = FetchRows"
  let ?found = "findIndex (\<lambda>s. Finite (session_id s) = parseInt sid') (select_by_week table)"
  have both: "(g_status (GET e table q) = 404)
                = (\<forall>s\<in>set table. parseInt sid' \<noteq> Finite (session_id s))
              \<and> (GET e table q = \<lparr>g_status = 404, g_body = GetError ''Session not found''\<rparr>)
                = (\<forall>s\<in>set table. parseInt sid' \<noteq> Finite (session_id s))"
  proof (cases ?found)
    case None
    with h have "GET_checks e table q = Inl \<lparr>g_status = 404, g_body = GetError ''Session not found''\<rparr>"
      by (simp add: GET_checks_def Let_def)
    then have "GET e table q = \<lparr>g_status = 404, g_body = GetError ''Session not found''\<rparr>"
      by (simp add: GET_checks_status(1))
    moreover from None have "\<forall>s\<in>set table. parseInt sid' \<noteq> Finite (session_id s)"
      by (auto simp: findIndex_None)
    ultimately show ?thesis by simp
  next
    case (Some i)
    from findIndex_Some[OF Some] have "i < length (select_by_week table)"
      "Finite (session_id (select_by_week table ! i)) = parseInt sid'" by simp_all
    then have "\<exists>s\<in>set table. parseInt sid' = Finite (session_id s)"
      by (metis nth_mem set_select_by_week)
    moreover have "g_status (GET e table q) \<noteq> 404"
    proof (cases "GET_checks e table q")
      case (Inl early)
      with h Some have "g_status early = 400"
        by (auto simp: GET_checks_def Let_def split: if_splits)
      with Inl show ?thesis by (simp add: GET_checks_status(1))
    next
      case (Inr v)
      then show ?thesis by (simp add: GET_checks_status(2))
    qed
    ultimately show ?thesis by auto
  qed
  from both show "(g_status (GET e table q) = 404)
                = (\<forall>s\<in>set table. parseInt sid' \<noteq> Finite (session_id s))" by blast
  from both show "(GET e table q = \<lparr>g_status = 404, g_body = GetError ''Session not found''\<rparr>)
                = (\<forall>s\<in>set table. parseInt sid' \<noteq> Finite (session_id s))" by blast
qed

text \<open>
  Instances: the string \<^verbatim>\<open>"2"\<close> is not found by the apply handler and is found by the
  preview handler; the preview handler also finds session 2 when the parameter has a
  leading no-break space, which \<^verbatim>\<open>parseInt\<close> skips, and finds the session with id
  \<open>2^53\<close> for the parameter \<^verbatim>\<open>9007199254740993\<close>, which \<^verbatim>\<open>parseInt\<close> rounds to \<open>2^53\<close>.
\<close>

theorem string_id_not_found_witness:
  "sessionId example_string_id_request = JStr ''2''
   \<and> q_sessionId example_query = Some (code_units ''2'')
   \<and> parseInt (code_units ''2'') = Finite 2
   \<and> POST example_env example_table example_string_id_request
       = (\<lparr>status = 404, body = Error ''Session not found''\<rparr>, example_table)
   \<and> g_status (GET example_env example_table example_query) \<noteq> 404
   \<and> parseInt (0xA0 # code_units ''2'') = Finite 2
   \<and> g_status (GET example_env example_table example_nbsp_query) \<noteq> 404
   \<and> parseInt (code_units ''9007199254740993'') = Finite 9007199254740992
   \<and> g_status (GET example_env example_large_id_table example_large_id_query) \<noteq> 404"
proof -
  have h1: "sessionId example_string_id_request = JStr ''2''"
    by (simp add: example_string_id_request_def)
  have g1: "\<not> (newDate example_string_id_request = None
              \<or> \<not> truthy (tableName example_string_id_request) \<or> ''2'' = [])"
    "\<not> fetch_outcome example_env \<noteq> FetchRows"
    by (simp_all add: example_string_id_request_def example_env_def)
  have h2: "q_tableName example_query = Some ''cohort_a'' \<and> ''cohort_a'' \<noteq> []
     \<and> q_sessionId example_query = Some (code_units ''2'') \<and> code_units ''2'' \<noteq> []
     \<and> q_newDate example_query = Some 20095 \<and> fetch_outcome example_env = FetchRows"
    by (simp add: example_query_def example_env_def code_units_def)
  have h3: "q_tableName example_nbsp_query = Some ''cohort_a'' \<and> ''cohort_a'' \<noteq> []
     \<and> q_sessionId example_nbsp_query = Some (0xA0 # code_units ''2'')
     \<and> 0xA0 # code_units ''2'' \<noteq> []
     \<and> q_newDate example_nbsp_query = Some 20095 \<and> fetch_outcome example_env = FetchRows"
    by (simp add: example_nbsp_query_def example_env_def)
  have h4: "q_tableName example_large_id_query = Some ''cohort_d'' \<and> ''cohort_d'' \<noteq> []
     \<and> q_sessionId example_large_id_query = Some (code_units ''9007199254740993'')
     \<and> code_units ''9007199254740993'' \<noteq> []
     \<and> q_newDate example_large_id_query = Some 20095 \<and> fetch_outcome example_env = FetchRows"
    by (simp add: example_large_id_query_def example_env_def code_units_def)
  have p2: "parseInt (code_units ''2'') = Finite 2" by code_simp
  have p3: "parseInt (0xA0 # code_units ''2'') = Finite 2" by code_simp
  have p4: "parseInt (code_units ''9007199254740993'') = Finite 9007199254740992" by code_simp
  have f2: "\<not> (\<forall>s\<in>set example_table. parseInt (code_units ''2'') \<noteq> Finite (session_id s))"
    by (simp only: p2) (simp add: example_table_def)
  have f3: "\<not> (\<forall>s\<in>set example_table. parseInt (0xA0 # code_units ''2'') \<noteq> Finite (session_id s))"
    by (simp only: p3) (simp add: example_table_def)
  have f4: "\<not> (\<forall>s\<in>set example_large_id_table.
                parseInt (code_units ''9007199254740993'') \<noteq> Finite (session_id s))"
    by (simp only: p4) (simp add: example_large_id_table_def)
  note t2 = string_id_not_found[of example_string_id_request "''2''" example_env
              example_table example_query "''cohort_a''" "code_units ''2''" 20095]
  note t3 = string_id_not_found[of example_string_id_request "''2''" example_env
              example_table example_nbsp_query "''cohort_a''" "0xA0 # code_units ''2''" 20095]
  note t4 = string_id_not_found[of example_string_id_request "''2''" example_env
              example_large_id_table example_large_id_query "''cohort_d''"
              "code_units ''9007199254740993''" 20095]
  from t2 h1 have "POST example_env example_table example_string_id_request =
        (if newDate example_string_id_request = None
            \<or> \<not> truthy (tableName example_string_id_request) \<or> ''2'' = []
         then (\<lparr>status = 400,
                 body = Error ''Missing required fields: tableName, sessionId, newDate''\<rparr>,
               example_table)
         else if fetch_outcome example_env \<noteq> FetchRows
         then (\<lparr>status = 500, body = Error ''Failed to fetch sessions''\<rparr>, example_table)
         else (\<lparr>status = 404, body = Error ''Session not found''\<rparr>, example_table))"
    by blast
  then have c1: "POST example_env example_table example_string_id_request
       = (\<lparr>status = 404, body = Error ''Session not found''\<rparr>, example_table)"
    by (simp only: g1 if_False)
  from t2 h2 f2 have c2: "g_status (GET example_env example_table example_query) \<noteq> 404"
    by blast
  from t3 h3 f3 have c3: "g_status (GET example_env example_table example_nbsp_query) \<noteq> 404"
    by blast
  from t4 h4 f4
  have c4: "g_status (GET example_env example_large_id_table example_large_id_query) \<noteq> 404"
    by blast
  from h1 h2 p2 p3 p4 c1 c2 c3 c4 show ?thesis by blast
qed

text \<open>
  Not every request with a string \<^verbatim>\<open>sessionId\<close> gets 404: the empty string fails the
  required-fields check (400), and a failed fetch gives 500 before the lookup.
\<close>

theorem string_id_other_status_counterexample:
  "sessionId example_empty_id_request = JStr []
   \<and> fst (POST example_env example_table example_empty_id_request)
       = \<lparr>status = 400,
          body = Error ''Missing required fields: tableName, sessionId, newDate''\<rparr>
   \<and> sessionId example_string_id_request = JStr ''2''
   \<and> fst (POST (example_env\<lparr>fetch_outcome := FetchError\<rparr>) example_table
             example_string_id_request)
       = \<lparr>status = 500, body = Error ''Failed to fetch sessions''\<rparr>"
  by (simp add: POST_def POST_checks_def example_empty_id_request_def
        example_string_id_request_def)

section \<open>The date check\<close>

text \<open>
  The check compares noon of the new date with midnight of the current day, both on
  the server's clock. In a zone whose offsets differ by less than 12 hours it rejects
  exactly the dates strictly before the calendar day that the server's clock shows.
\<close>

lemma new_date_check:
  assumes "shifts_below_12h z"
  shows "(getTime z (date_at_noon d) \<le> getTime z (setHours_zero t)) = (d < local_date t)"
proof -
  define a where "a = z (date_at_noon d)"
  define b where "b = z (setHours_zero t)"
  from assms have ab: "a - b < 43200000" "b - a < 43200000"
    by (simp_all add: shifts_below_12h_def a_def b_def)
  have pos: "0 < ms_per_day" by (simp add: ms_per_day_def)
  have m: "ms_per_day = 86400000" by (simp add: ms_per_day_def)
  have lhs: "getTime z (date_at_noon d) = d * ms_per_day + 43200000 - a"
    by (simp add: getTime_def date_at_noon_def a_def)
  have rhs: "getTime z (setHours_zero t) = local_date t * ms_per_day - b"
    by (simp add: getTime_def setHours_zero_def local_date_def b_def)
  show ?thesis
  proof
    assume le: "getTime z (date_at_noon d) \<le> getTime z (setHours_zero t)"
    show "d < local_date t"
    proof (rule ccontr)
      assume "\<not> d < local_date t"
      then have "local_date t \<le> d" by simp
      with pos have "local_date t * ms_per_day \<le> d * ms_per_day"
        by (simp only: mult_le_cancel_right_pos)
      with le ab show False unfolding lhs rhs by linarith
    qed
  next
    assume "d < local_date t"
    then have "d + 1 \<le> local_date t" by simp
    with pos have "(d + 1) * ms_per_day \<le> local_date t * ms_per_day"
      by (simp only: mult_le_cancel_right_pos)
    then have "d * ms_per_day + ms_per_day \<le> local_date t * ms_per_day"
      by (simp add: algebra_simps)
    with ab m show "getTime z (date_at_noon d) \<le> getTime z (setHours_zero t)"
      unfolding lhs rhs by linarith
  qed
qed

text \<open>
  C1. The handlers' comment and error message say that a new date in the past or today
  is refused. A new date equal to the current calendar day passes the check: in the
  example environment the request arrives on 2025-01-01 (day 20089); moving session 1
  to that very day is answered with HTTP 200 by both handlers, and the apply handler
  rewrites the dates of all four rows.
\<close>

theorem shift_to_today_accepted:
  "toISODate (zone example_env) (now example_env) = 20089
   \<and> local_date (now example_env) = 20089
   \<and> newDate example_today_request = Some 20089
   \<and> fst (POST example_env example_table example_today_request)
       = \<lparr>status = 200,
          body = Shifted ''Successfully shifted class and rescheduled 3 subsequent classes'' 4
                   [\<lparr>u_id = 1, u_date = 20089, u_day = ''Wednesday''\<rparr>,
                    \<lparr>u_id = 2, u_date = 20094, u_day = ''Monday''\<rparr>,
                    \<lparr>u_id = 3, u_date = 20095, u_day = ''Tuesday''\<rparr>,
                    \<lparr>u_id = 4, u_date = 20096, u_day = ''Wednesday''\<rparr>]\<rparr>
   \<and> map date (snd (POST example_env example_table example_today_request))
       = [20089, 20094, 20095, 20096]
   \<and> q_newDate example_today_query = Some 20089
   \<and> g_status (GET example_env example_table example_today_query) = 200"
proof (intro conjI)
  show "toISODate (zone example_env) (now example_env) = 20089" by code_simp
  show "local_date (now example_env) = 20089" by code_simp
  show "newDate example_today_request = Some 20089" by (simp add: example_today_request_def)
  show "fst (POST example_env example_table example_today_request)
       = \<lparr>status = 200,
          body = Shifted ''Successfully shifted class and rescheduled 3 subsequent classes'' 4
                   [\<lparr>u_id = 1, u_date = 20089, u_day = ''Wednesday''\<rparr>,
                    \<lparr>u_id = 2, u_date = 20094, u_day = ''Monday''\<rparr>,
                    \<lparr>u_id = 3, u_date = 20095, u_day = ''Tuesday''\<rparr>,
                    \<lparr>u_id = 4, u_date = 20096, u_day = ''Wednesday''\<rparr>]\<rparr>"
    by code_simp
  show "map date (snd (POST example_env example_table example_today_request))
       = [20089, 20094, 20095, 20096]"
    by code_simp
  show "q_newDate example_today_query = Some 20089" by (simp add: example_today_query_def)
  show "g_status (GET example_env example_table example_today_query) = 200" by code_simp
qed

section \<open>Week boundaries across a change of the clock\<close>

text \<open>
  C5. The renumbering is described in calendar days: a session starts a new week
  exactly when its date lies at least 7 days after the date that started the current
  week, and the code's comments say the same (7-day periods; a new week when more
  than 6 days have passed). The code counts the days from the milliseconds between
  the two local noons. In a zone with a fixed offset this is the difference of the
  dates (lemma \<open>rolling_week_rule_fixed_offset\<close>), and sessions on days 0, 2 and 8 get
  weeks 1, 1 and 2 (lemma \<open>assign_0_2_8\<close>). On a server with daylight saving time
  it is not: between noon of Monday 2025-03-03 and noon of Monday 2025-03-10 in New
  York there are 7 days less one hour, which the code rounds down to 6 days. After
  the request that moves the second class to 2025-03-10, seven days after the first,
  the apply handler leaves it in week 1 as session 2, and the preview handler shows
  the same pair, where a server on UTC gives week 2, session 1.
\<close>

theorem week_boundary_across_dst:
  "fst (POST example_dst_env example_dst_table example_dst_request)
     = \<lparr>status = 200,
        body = Shifted ''Successfully shifted class and rescheduled 0 subsequent classes'' 1
                 [\<lparr>u_id = 2, u_date = 20157, u_day = ''Monday''\<rparr>]\<rparr>
   \<and> map numbering (select_by_date
         (snd (POST example_dst_env example_dst_table example_dst_request)))
       = [(1, 20150, 1, 1), (2, 20157, 1, 2)]
   \<and> GET example_dst_env example_dst_table example_dst_query
       = \<lparr>g_status = 200,
          g_body = Preview (2, 1, 2) 1 [''Monday'', ''Wednesday'']
                     [\<lparr>p_id = 2, oldWeek = 1, oldSession = 2, newWeek = 1, newSession = 2,
                       p_session_type = ''live'', p_subject_name = ''Strings'',
                       oldDate = 20152, oldDay = Some ''Wednesday'', p_newDate = 20157,
                       p_newDay = Some ''Monday''\<rparr>]\<rparr>
   \<and> 20157 - 20150 = (7 :: int)
   \<and> getTime new_york (date_at_noon 20157) - getTime new_york (date_at_noon 20150)
       = 7 * ms_per_day - 60 * 60 * 1000
   \<and> (getTime new_york (date_at_noon 20157) - getTime new_york (date_at_noon 20150))
         div ms_per_day = 6
   \<and> assign new_york [20150, 20157] = [(1, 1), (1, 2)]
   \<and> assign utc [20150, 20157] = [(1, 1), (2, 1)]
   \<and> map numbering (select_by_date
         (snd (POST (example_dst_env\<lparr>zone := utc\<rparr>) example_dst_table example_dst_request)))
       = [(1, 20150, 1, 1), (2, 20157, 2, 1)]"
proof -
  have a1: "fst (POST example_dst_env example_dst_table example_dst_request)
     = \<lparr>status = 200,
        body = Shifted ''Successfully shifted class and rescheduled 0 subsequent classes'' 1
                 [\<lparr>u_id = 2, u_date = 20157, u_day = ''Monday''\<rparr>]\<rparr>"
    by code_simp
  have a2: "map numbering (select_by_date
         (snd (POST example_dst_env example_dst_table example_dst_request)))
       = [(1, 20150, 1, 1), (2, 20157, 1, 2)]"
    by code_simp
  have a3: "GET example_dst_env example_dst_table example_dst_query
       = \<lparr>g_status = 200,
          g_body = Preview (2, 1, 2) 1 [''Monday'', ''Wednesday'']
                     [\<lparr>p_id = 2, oldWeek = 1, oldSession = 2, newWeek = 1, newSession = 2,
                       p_session_type = ''live'', p_subject_name = ''Strings'',
                       oldDate = 20152, oldDay = Some ''Wednesday'', p_newDate = 20157,
                       p_newDay = Some ''Monday''\<rparr>]\<rparr>"
    by code_simp
  have a4: "20157 - 20150 = (7 :: int)" by simp
  have a5: "getTime new_york (date_at_noon 20157) - getTime new_york (date_at_noon 20150)
       = 7 * ms_per_day - 60 * 60 * 1000"
    by (simp add: getTime_def new_york_def date_at_noon_def ms_per_day_def)
  have a6: "(getTime new_york (date_at_noon 20157) - getTime new_york (date_at_noon 20150))
         div ms_per_day = 6"
    by (simp add: getTime_def new_york_def date_at_noon_def ms_per_day_def)
  have a7: "assign new_york [20150, 20157] = [(1, 1), (1, 2)]" by code_simp
  have a8: "assign utc [20150, 20157] = [(1, 1), (2, 1)]" by code_simp
  have a9: "map numbering (select_by_date
         (snd (POST (example_dst_env\<lparr>zone := utc\<rparr>) example_dst_table example_dst_request)))
       = [(1, 20150, 1, 1), (2, 20157, 2, 1)]"
    by code_simp
  from a1 a2 a3 a4 a5 a6 a7 a8 a9 show ?thesis by blast
qed


end
